theory Spec2Isabelle
  imports Complex_Main "HOL-Library.Sublist" "HOL-Library.AList"
begin

section \<open>JavaScript values and the built-ins the node calls\<close>

text \<open>
  The node \<^verbatim>\<open>src/nodes/Oracle/OracleDatabase.node.ts\<close> is TypeScript. A string is
  a list of code units; the model reads each \<^typ>\<open>char\<close> as one code unit below
  \<^verbatim>\<open>0x100\<close>. A JavaScript number is a double: the model keeps NaN and the two
  infinities apart and holds a finite number as the exact rational its literal denotes
  (rounding to the nearest double, overflow to infinity included, is not modelled, and
  \<^verbatim>\<open>-0\<close> is \<^verbatim>\<open>0\<close>).
\<close>

datatype jsnumber = NaN | PosInfinity | NegInfinity | Finite rat

text \<open>
  The values that travel through binds and results. \<open>JDate None\<close> is the Invalid
  Date; \<open>JResultSet h\<close> is the driver's cursor object with handle \<open>h\<close>. An object is
  its list of own enumerable string-keyed properties in enumeration order.
\<close>

datatype jsvalue =
    JUndefined
  | JNull
  | JBoolean bool
  | JNumber jsnumber
  | JString string
  | JDate "int option"
  | JResultSet nat
  | JArray "jsvalue list"
  | JObject "(string \<times> jsvalue) list"

subsection \<open>\<^verbatim>\<open>String.prototype.trim\<close> and \<^verbatim>\<open>split\<close>\<close>

text \<open>White space and line terminators of ECMAScript, as far as they lie below \<^verbatim>\<open>0x100\<close>.\<close>

definition isWhiteSpace :: "char \<Rightarrow> bool" where
  "isWhiteSpace c =
     (c = CHR 0x09 \<or> c = CHR 0x0A \<or> c = CHR 0x0B \<or> c = CHR 0x0C \<or> c = CHR 0x0D
      \<or> c = CHR 0x20 \<or> c = CHR 0xA0)"

definition trim :: "string \<Rightarrow> string" where
  "trim s = rev (dropWhile isWhiteSpace (rev (dropWhile isWhiteSpace s)))"

text \<open>\<^verbatim>\<open>s.split(",")\<close>: the pieces between the separators; the empty string gives one empty piece.\<close>

fun split :: "char \<Rightarrow> string \<Rightarrow> string list" where
  "split sep [] = [[]]"
| "split sep (c # cs) =
     (if c = sep then [] # split sep cs
      else (case split sep cs of [] \<Rightarrow> [[c]] | w # ws \<Rightarrow> (c # w) # ws))"

subsection \<open>\<^verbatim>\<open>Number(string)\<close>\<close>

text \<open>
  ECMAScript's StringToNumber: the trimmed text is empty (the number 0), or a
  StrNumericLiteral (an optionally signed decimal literal with optional fraction and
  exponent, \<^verbatim>\<open>Infinity\<close>, or an unsigned binary, octal or hexadecimal integer), or the
  result is NaN.
\<close>

definition charCode :: "char \<Rightarrow> nat" where
  "charCode c = of_char c"

definition isDecimalDigit :: "char \<Rightarrow> bool" where
  "isDecimalDigit c = (48 \<le> charCode c \<and> charCode c \<le> 57)"

definition digitValue :: "char \<Rightarrow> nat option" where
  "digitValue c =
     (if 48 \<le> charCode c \<and> charCode c \<le> 57 then Some (charCode c - 48)
      else if 97 \<le> charCode c \<and> charCode c \<le> 102 then Some (charCode c - 87)
      else if 65 \<le> charCode c \<and> charCode c \<le> 70 then Some (charCode c - 55)
      else None)"

text \<open>The value of a digit string in a base, most significant digit first; \<open>None\<close> on a foreign character.\<close>

fun digitsValue :: "nat \<Rightarrow> nat \<Rightarrow> string \<Rightarrow> nat option" where
  "digitsValue base acc [] = Some acc"
| "digitsValue base acc (c # cs) =
     (case digitValue c of
        None \<Rightarrow> None
      | Some d \<Rightarrow> if d < base then digitsValue base (acc * base + d) cs else None)"

definition scale10 :: "nat \<Rightarrow> int \<Rightarrow> rat" where
  "scale10 m e = (if 0 \<le> e then of_nat m * 10 ^ nat e else of_nat m / 10 ^ nat (- e))"

text \<open>ExponentPart, optional: the text after the mantissa is empty, or \<^verbatim>\<open>e\<close> and a signed integer.\<close>

definition exponentPart :: "string \<Rightarrow> int option" where
  "exponentPart s =
     (case s of
        [] \<Rightarrow> Some 0
      | c # r \<Rightarrow>
          if c = CHR ''e'' \<or> c = CHR ''E'' then
            (case r of
               [] \<Rightarrow> None
             | d # ds \<Rightarrow>
                 if d = CHR ''+'' then
                   (if ds = [] then None else map_option int (digitsValue 10 0 ds))
                 else if d = CHR ''-'' then
                   (if ds = [] then None else map_option (\<lambda>n. - int n) (digitsValue 10 0 ds))
                 else map_option int (digitsValue 10 0 (d # ds)))
          else None)"

text \<open>StrUnsignedDecimalLiteral without \<^verbatim>\<open>Infinity\<close>: the magnitude, or \<open>None\<close>.\<close>

definition unsignedDecimal :: "string \<Rightarrow> rat option" where
  "unsignedDecimal s =
     (let ip = takeWhile isDecimalDigit s;
          r1 = dropWhile isDecimalDigit s;
          dot = (r1 \<noteq> [] \<and> hd r1 = CHR ''.'');
          fp = (if dot then takeWhile isDecimalDigit (tl r1) else []);
          r2 = (if dot then dropWhile isDecimalDigit (tl r1) else r1)
      in if ip = [] \<and> fp = [] then None
         else (case (digitsValue 10 0 (ip @ fp), exponentPart r2) of
                 (Some m, Some e) \<Rightarrow> Some (scale10 m (e - int (length fp)))
               | _ \<Rightarrow> None))"

definition strDecimalLiteral :: "string \<Rightarrow> jsnumber" where
  "strDecimalLiteral s =
     (let neg = (s \<noteq> [] \<and> hd s = CHR ''-'');
          body = (if s \<noteq> [] \<and> (hd s = CHR ''+'' \<or> hd s = CHR ''-'') then tl s else s)
      in if body = ''Infinity'' then (if neg then NegInfinity else PosInfinity)
         else (case unsignedDecimal body of
                 None \<Rightarrow> NaN
               | Some q \<Rightarrow> Finite (if neg then - q else q)))"

definition nonDecimalIntegerLiteral :: "string \<Rightarrow> nat option" where
  "nonDecimalIntegerLiteral s =
     (case s of
        z # x # ds \<Rightarrow>
          if z = CHR ''0'' \<and> ds \<noteq> [] then
            (if x = CHR ''x'' \<or> x = CHR ''X'' then digitsValue 16 0 ds
             else if x = CHR ''o'' \<or> x = CHR ''O'' then digitsValue 8 0 ds
             else if x = CHR ''b'' \<or> x = CHR ''B'' then digitsValue 2 0 ds
             else None)
          else None
      | _ \<Rightarrow> None)"

definition toNumber :: "string \<Rightarrow> jsnumber" where
  "toNumber raw =
     (let s = trim raw
      in if s = [] then Finite 0
         else (case nonDecimalIntegerLiteral s of
                 Some n \<Rightarrow> Finite (of_nat n)
               | None \<Rightarrow> strDecimalLiteral s))"

subsection \<open>\<^verbatim>\<open>String.prototype.replaceAll\<close> with a string pattern\<close>

text \<open>
  The method of the language, which the source calls; the replacement the source installs
  under that name where the language has none is not modelled.
  The replacement text is not taken literally: GetSubstitution expands \<^verbatim>\<open>$$\<close> to a
  dollar sign, \<^verbatim>\<open>$&\<close> to the match, \<^verbatim>\<open>$`\<close> to the text before the match and
  \<^verbatim>\<open>$'\<close> to the text after it. A string pattern captures nothing, so \<^verbatim>\<open>$1\<close> and
  \<^verbatim>\<open>$<\<close> stay as they are.
\<close>

fun getSubstitution :: "string \<Rightarrow> string \<Rightarrow> string \<Rightarrow> string \<Rightarrow> string" where
  "getSubstitution matched passed after [] = []"
| "getSubstitution matched passed after [c] = [c]"
| "getSubstitution matched passed after (c # d # r) =
     (if c = CHR ''$'' \<and> d = CHR ''$'' then CHR ''$'' # getSubstitution matched passed after r
      else if c = CHR ''$'' \<and> d = CHR ''&'' then matched @ getSubstitution matched passed after r
      else if c = CHR ''$'' \<and> d = CHR 0x60 then passed @ getSubstitution matched passed after r
      else if c = CHR ''$'' \<and> d = CHR 0x27 then after @ getSubstitution matched passed after r
      else c # getSubstitution matched passed after (d # r))"

text \<open>
  The matches are found left to right in the original text, each search resuming behind
  the previous match; \<open>passed\<close> is the text already passed.
\<close>

function replaceAll_from :: "string \<Rightarrow> string \<Rightarrow> string \<Rightarrow> string \<Rightarrow> string" where
  "replaceAll_from pat rep passed [] = []"
| "replaceAll_from pat rep passed (c # cs) =
     (if pat \<noteq> [] \<and> prefix pat (c # cs)
      then getSubstitution pat passed (drop (length pat) (c # cs)) rep
           @ replaceAll_from pat rep (passed @ pat) (drop (length pat) (c # cs))
      else c # replaceAll_from pat rep (passed @ [c]) cs)"
  by pat_completeness auto
termination
  by (relation "measure (\<lambda>(pat, rep, passed, s). length s)") auto

text \<open>The empty pattern matches before every code unit and at the end.\<close>

fun replaceAll_empty :: "string \<Rightarrow> string \<Rightarrow> string \<Rightarrow> string" where
  "replaceAll_empty rep passed [] = getSubstitution [] passed [] rep"
| "replaceAll_empty rep passed (c # cs) =
     getSubstitution [] passed (c # cs) rep @ c # replaceAll_empty rep (passed @ [c]) cs"

definition replaceAll :: "string \<Rightarrow> string \<Rightarrow> string \<Rightarrow> string" where
  "replaceAll s pat rep =
     (if pat = [] then replaceAll_empty rep [] s else replaceAll_from pat rep [] s)"

section \<open>Parameters and binds\<close>

text \<open>
  One entry of the node's \<^verbatim>\<open>params.values\<close> collection. The fields \<^verbatim>\<open>value\<close> and
  \<^verbatim>\<open>datatype\<close> of the source are \<open>rawValue\<close> and \<open>dataType\<close> here; \<open>None\<close> is a
  missing (\<^verbatim>\<open>undefined\<close> or \<^verbatim>\<open>null\<close>) property. The Value field of the node is
  declared with type string, and the model takes it as text.
\<close>

datatype ParamDirection = DirIn | DirOut | DirInOut

datatype ParamDatatype = TString | TNumber | TDate | TCursor

record param =
  name :: string
  rawValue :: "string option"
  dataType :: ParamDatatype
  direction :: ParamDirection
  maxSize :: "jsnumber option"
  parseInStatement :: bool

text \<open>The driver's constants \<^verbatim>\<open>oracledb.STRING\<close>, \<^verbatim>\<open>oracledb.BIND_IN\<close> and their siblings.\<close>

datatype DbType = DB_STRING | DB_NUMBER | DB_DATE | DB_CURSOR

datatype BindDir = BIND_IN | BIND_OUT | BIND_INOUT

text \<open>
  \<^verbatim>\<open>oracledb.BindParameter\<close> as the node fills it: \<open>dbType\<close> is the property
  \<^verbatim>\<open>type\<close>, \<open>outMaxSize\<close> the property \<^verbatim>\<open>maxSize\<close>; \<open>None\<close> is an absent property.
\<close>

record BindParameter =
  dir :: BindDir
  dbType :: DbType
  val :: "jsvalue option"
  outMaxSize :: "jsnumber option"

type_synonym binds = "(string \<times> BindParameter) list"

datatype error = NodeOperationError string | DriverError string

text \<open>
  What the node cannot compute by itself: the UUIDs that \<^verbatim>\<open>crypto.randomUUID()\<close>
  returns, by the number of the draw, and the time value \<^verbatim>\<open>new Date(text)\<close> parses
  (\<open>None\<close> for an Invalid Date; the accepted formats are the engine's).
\<close>

record runtime =
  randomUUID :: "nat \<Rightarrow> string"
  parseDate :: "string \<Rightarrow> int option"

subsection \<open>The helpers of \<^verbatim>\<open>execute\<close>\<close>

fun mapDatatype :: "ParamDatatype \<Rightarrow> DbType" where
  "mapDatatype TNumber = DB_NUMBER"
| "mapDatatype TDate = DB_DATE"
| "mapDatatype TCursor = DB_CURSOR"
| "mapDatatype TString = DB_STRING"

definition coerceVal :: "runtime \<Rightarrow> string \<Rightarrow> ParamDatatype \<Rightarrow> jsvalue" where
  "coerceVal rt raw dt =
     (if dt = TNumber then JNumber (toNumber raw)
      else if dt = TDate then JDate (parseDate rt raw)
      else JString raw)"

text \<open>\<^verbatim>\<open>!maxSize\<close> on a number: zero and NaN are falsy.\<close>

definition falsyNumber :: "jsnumber \<Rightarrow> bool" where
  "falsyNumber m = (m = Finite 0 \<or> m = NaN)"

definition ensureOutMaxSize :: "ParamDatatype \<Rightarrow> jsnumber \<Rightarrow> jsnumber" where
  "ensureOutMaxSize dt m =
     (if dt = TString \<and> (falsyNumber m \<or> m = NaN) then Finite 2000 else m)"

text \<open>\<^verbatim>\<open>Number(maxSize)\<close> on a number or \<^verbatim>\<open>undefined\<close>.\<close>

definition numberOfMaxSize :: "jsnumber option \<Rightarrow> jsnumber" where
  "numberOfMaxSize m = (case m of None \<Rightarrow> NaN | Some x \<Rightarrow> x)"

text \<open>\<^verbatim>\<open>String(value ?? "")\<close>.\<close>

definition valueText :: "string option \<Rightarrow> string" where
  "valueText v = (case v of None \<Rightarrow> [] | Some s \<Rightarrow> s)"

definition quoted :: "string \<Rightarrow> string" where
  "quoted s = CHR 0x22 # s @ [CHR 0x22]"

fun directionUpper :: "ParamDirection \<Rightarrow> string" where
  "directionUpper DirIn = ''IN''"
| "directionUpper DirOut = ''OUT''"
| "directionUpper DirInOut = ''INOUT''"

subsection \<open>Compiling the binds\<close>

text \<open>
  The callback of \<^verbatim>\<open>parameterIDataObjectList.reduce\<close> writes the accumulator
  \<open>result\<close> and the enclosing variable \<open>query\<close>; the state also counts the UUIDs
  drawn so far.
\<close>

text \<open>
  The assignment \<^verbatim>\<open>result[k] = b\<close> on the object that started as \<^verbatim>\<open>{}\<close>. It keeps the
  place of a key that is already there and appends a new one (\<^const>\<open>AList.update\<close>), but
  for the key \<^verbatim>\<open>__proto__\<close>: that assignment calls the setter which
  \<^verbatim>\<open>Object.prototype\<close> holds under this name, which replaces the prototype of
  \<open>result\<close> and adds no property of its own. The model holds the own properties of an
  object and not its prototype.
\<close>

definition assign :: "string \<Rightarrow> 'v \<Rightarrow> (string \<times> 'v) list \<Rightarrow> (string \<times> 'v) list" where
  "assign k v obj = (if k = ''__proto__'' then obj else AList.update k v obj)"

type_synonym compileState = "string \<times> binds \<times> nat"

definition valList :: "param \<Rightarrow> string list" where
  "valList item =
     filter (\<lambda>v. length v > 0) (map trim (split (CHR '','') (valueText (rawValue item))))"

text \<open>The body of \<^verbatim>\<open>valList.forEach\<close>, over \<open>result\<close>, \<open>generatedSqlString\<close> and the draw counter.\<close>

fun forEachVal ::
  "runtime \<Rightarrow> param \<Rightarrow> string list \<Rightarrow> binds \<times> string \<times> nat \<Rightarrow> binds \<times> string \<times> nat" where
  "forEachVal rt item [] st = st"
| "forEachVal rt item (v # vs) (result, generatedSqlString, drawn) =
     (let uniqueId = replaceAll (randomUUID rt drawn) ''-'' ''_'';
          newParamName = name item @ uniqueId
      in forEachVal rt item vs
           (assign newParamName
              \<lparr>dir = BIND_IN, dbType = mapDatatype (dataType item),
               val = Some (coerceVal rt v (dataType item)), outMaxSize = None\<rparr> result,
            generatedSqlString @ '':'' @ newParamName @ '','',
            Suc drawn))"

definition compileParam :: "runtime \<Rightarrow> param \<Rightarrow> compileState \<Rightarrow> error + compileState" where
  "compileParam rt item st =
     (case st of (query, result, drawn) \<Rightarrow>
        if parseInStatement item then
          if direction item \<noteq> DirIn then
            Inl (NodeOperationError (''Parameter '' @ quoted (name item) @ '' uses ''
                   @ quoted ''Parse for IN statement'' @ '' but direction is ''
                   @ directionUpper (direction item)))
          else if dataType item = TCursor then
            Inl (NodeOperationError (''Parameter '' @ quoted (name item)
                   @ '' cannot be CURSOR with '' @ quoted ''Parse for IN statement''))
          else if length (valList item) = 0 then
            Inl (NodeOperationError (''Parameter '' @ quoted (name item)
                   @ '' has no values for IN list.''))
          else
            (case forEachVal rt item (valList item) (result, ''('', drawn) of
               (result', generatedSqlString, drawn') \<Rightarrow>
                 Inr (replaceAll query ('':'' @ name item) (butlast generatedSqlString @ '')''),
                      result', drawn'))
        else if direction item = DirIn then
          if dataType item = TCursor then
            Inl (NodeOperationError (''Parameter '' @ quoted (name item)
                   @ '' cannot be CURSOR with IN direction.''))
          else
            Inr (query,
                 assign (name item)
                   \<lparr>dir = BIND_IN, dbType = mapDatatype (dataType item),
                    val = Some (coerceVal rt (valueText (rawValue item)) (dataType item)),
                    outMaxSize = None\<rparr> result,
                 drawn)
        else if direction item = DirOut then
          Inr (query,
               assign (name item)
                 \<lparr>dir = BIND_OUT, dbType = mapDatatype (dataType item), val = None,
                  outMaxSize =
                    (if mapDatatype (dataType item) = DB_STRING
                     then Some (ensureOutMaxSize (dataType item) (numberOfMaxSize (maxSize item)))
                     else None)\<rparr> result,
               drawn)
        else
          if dataType item = TCursor then
            Inl (NodeOperationError (''Parameter '' @ quoted (name item)
                   @ '' cannot be CURSOR with IN OUT direction.''))
          else
            Inr (query,
                 assign (name item)
                   \<lparr>dir = BIND_INOUT, dbType = mapDatatype (dataType item),
                    val = Some (coerceVal rt (valueText (rawValue item)) (dataType item)),
                    outMaxSize =
                      (if mapDatatype (dataType item) = DB_STRING
                       then Some (ensureOutMaxSize (dataType item) (numberOfMaxSize (maxSize item)))
                       else None)\<rparr> result,
                 drawn))"

text \<open>The \<^verbatim>\<open>reduce\<close> itself: a throw in the callback ends it.\<close>

fun reduceParams :: "runtime \<Rightarrow> param list \<Rightarrow> compileState \<Rightarrow> error + compileState" where
  "reduceParams rt [] st = Inr st"
| "reduceParams rt (item # items) st =
     (case compileParam rt item st of
        Inl e \<Rightarrow> Inl e
      | Inr st' \<Rightarrow> reduceParams rt items st')"

text \<open>The finalized SQL text and \<open>bindParameters\<close>, as \<^verbatim>\<open>connection.execute\<close> receives them.\<close>

definition compileBinds :: "runtime \<Rightarrow> string \<Rightarrow> param list \<Rightarrow> error + string \<times> binds" where
  "compileBinds rt query params =
     (case reduceParams rt params (query, [], 0) of
        Inl e \<Rightarrow> Inl e
      | Inr (query', result, drawn) \<Rightarrow> Inr (query', result))"

section \<open>The driver: cursors and the connection\<close>

text \<open>
  A cursor of the driver (\<^verbatim>\<open>oracledb.ResultSet\<close>): the rows not fetched yet, whether
  it has been closed, and whether its \<^verbatim>\<open>getRows\<close> or \<^verbatim>\<open>close\<close> rejects (with
  the text of the error). A closed cursor rejects both calls. \<open>ownEntries\<close> stands for
  \<^verbatim>\<open>Object.entries\<close> of the cursor object itself, which the driver decides.
\<close>

record cursor =
  pending :: "jsvalue list"
  closed :: bool
  getRowsError :: "string option"
  closeError :: "string option"
  ownEntries :: "(string \<times> jsvalue) list"

datatype event =
    ConnExecute string binds
  | ConnClose
  | RsGetRows nat nat
  | RsClose nat
  | ConsoleError string

record world =
  cursors :: "nat \<Rightarrow> cursor"
  events :: "event list"

definition emit :: "event \<Rightarrow> world \<Rightarrow> world" where
  "emit e w = w\<lparr>events := events w @ [e]\<rparr>"

definition rs_getRows :: "nat \<Rightarrow> nat \<Rightarrow> world \<Rightarrow> (error + jsvalue list) \<times> world" where
  "rs_getRows h n w =
     (let c = cursors w h; w1 = emit (RsGetRows h n) w
      in if closed c then (Inl (DriverError ''NJS-018: invalid ResultSet''), w1)
         else (case getRowsError c of
                 Some msg \<Rightarrow> (Inl (DriverError msg), w1)
               | None \<Rightarrow>
                   (Inr (take n (pending c)),
                    w1\<lparr>cursors := (cursors w1)(h := c\<lparr>pending := drop n (pending c)\<rparr>)\<rparr>)))"

definition rs_close :: "nat \<Rightarrow> world \<Rightarrow> (error + unit) \<times> world" where
  "rs_close h w =
     (let c = cursors w h; w1 = emit (RsClose h) w
      in if closed c then (Inl (DriverError ''NJS-018: invalid ResultSet''), w1)
         else (case closeError c of
                 Some msg \<Rightarrow> (Inl (DriverError msg), w1)
               | None \<Rightarrow> (Inr (), w1\<lparr>cursors := (cursors w1)(h := c\<lparr>closed := True\<rparr>)\<rparr>)))"

text \<open>
  The connection the node has acquired: what \<^verbatim>\<open>connection.execute\<close> answers to a
  statement and its binds (the text of the error it rejects with, or the result), and
  whether \<^verbatim>\<open>connection.close\<close> rejects.
\<close>

record execResult =
  metaData :: jsvalue
  rows :: jsvalue
  rowsAffected :: jsvalue
  lastRowid :: jsvalue
  outBinds :: jsvalue

record connection =
  conn_execute :: "string \<Rightarrow> binds \<Rightarrow> string + execResult"
  conn_close :: "string option"

section \<open>\<^verbatim>\<open>normalizeOutBinds\<close>\<close>

text \<open>
  \<^verbatim>\<open>readResultSet\<close>: one \<^verbatim>\<open>getRows(10000)\<close>, then \<^verbatim>\<open>close\<close>; the rows are the
  value.
\<close>

definition readResultSet :: "nat \<Rightarrow> world \<Rightarrow> (error + jsvalue) \<times> world" where
  "readResultSet h w =
     (case rs_getRows h 10000 w of
        (Inl e, w1) \<Rightarrow> (Inl e, w1)
      | (Inr fetched, w1) \<Rightarrow>
          (case rs_close h w1 of
             (Inl e, w2) \<Rightarrow> (Inl e, w2)
           | (Inr u, w2) \<Rightarrow> (Inr (JArray fetched), w2)))"

text \<open>
  \<^verbatim>\<open>Promise.all(xs.map(async ...))\<close>: every task runs, also after one has failed;
  the values keep the order of the list, and a failure makes the whole fail. The tasks
  of the source interleave at their awaits; the model runs them one after the other,
  which gives every cursor the same calls. Of several failures it reports the first in
  list order.
\<close>

fun promiseAll ::
  "('a \<Rightarrow> world \<Rightarrow> (error + 'b) \<times> world) \<Rightarrow> 'a list \<Rightarrow> world \<Rightarrow> (error + 'b list) \<times> world" where
  "promiseAll f [] w = (Inr [], w)"
| "promiseAll f (x # xs) w =
     (case f x w of
        (r, w1) \<Rightarrow>
          (case promiseAll f xs w1 of
             (rs, w2) \<Rightarrow>
               ((case r of
                   Inl e \<Rightarrow> Inl e
                 | Inr y \<Rightarrow> (case rs of Inl e \<Rightarrow> Inl e | Inr ys \<Rightarrow> Inr (y # ys))),
                w2)))"

text \<open>\<^verbatim>\<open>isResultSet\<close>: an object with functions \<^verbatim>\<open>getRows\<close> and \<^verbatim>\<open>close\<close>; among the values of the model, the cursors.\<close>

fun isResultSet :: "jsvalue \<Rightarrow> bool" where
  "isResultSet (JResultSet h) = True"
| "isResultSet v = False"

text \<open>The element task \<^verbatim>\<open>async (val) => (isResultSet(val) ? await readResultSet(val) : val)\<close>.\<close>

fun normalizeElement :: "jsvalue \<Rightarrow> world \<Rightarrow> (error + jsvalue) \<times> world" where
  "normalizeElement (JResultSet h) w = readResultSet h w"
| "normalizeElement v w = (Inr v, w)"

text \<open>The entry task of the object branch.\<close>

fun normalizeEntry :: "string \<times> jsvalue \<Rightarrow> world \<Rightarrow> (error + string \<times> jsvalue) \<times> world" where
  "normalizeEntry (k, JResultSet h) w =
     (case readResultSet h w of
        (Inl e, w1) \<Rightarrow> (Inl e, w1)
      | (Inr fetched, w1) \<Rightarrow> (Inr (k, fetched), w1))"
| "normalizeEntry (k, JArray xs) w =
     (case promiseAll normalizeElement xs w of
        (Inl e, w1) \<Rightarrow> (Inl e, w1)
      | (Inr arr, w1) \<Rightarrow> (Inr (k, JArray arr), w1))"
| "normalizeEntry (k, v) w = (Inr (k, v), w)"

text \<open>
  \<^verbatim>\<open>Object.fromEntries\<close>: the entries become own properties in order, the key
  \<^verbatim>\<open>__proto__\<close> like any other (the method defines the property and calls no setter).
\<close>

definition fromEntries :: "(string \<times> jsvalue) list \<Rightarrow> (string \<times> jsvalue) list" where
  "fromEntries es = fold (\<lambda>(k, v). AList.update k v) es []"

text \<open>
  The three branches of \<^verbatim>\<open>normalizeOutBinds\<close>: an array; a truthy value whose
  \<^verbatim>\<open>typeof\<close> is \<^verbatim>\<open>object\<close> (a plain object, and also a date, which has no own
  entries, and a cursor object); anything else is returned as it is.
\<close>

fun normalizeOutBinds :: "jsvalue \<Rightarrow> world \<Rightarrow> (error + jsvalue) \<times> world" where
  "normalizeOutBinds (JArray xs) w =
     (case promiseAll normalizeElement xs w of
        (Inl e, w1) \<Rightarrow> (Inl e, w1)
      | (Inr arr, w1) \<Rightarrow> (Inr (JArray arr), w1))"
| "normalizeOutBinds (JObject kvs) w =
     (case promiseAll normalizeEntry kvs w of
        (Inl e, w1) \<Rightarrow> (Inl e, w1)
      | (Inr entries, w1) \<Rightarrow> (Inr (JObject (fromEntries entries)), w1))"
| "normalizeOutBinds (JDate t) w = (Inr (JObject (fromEntries [])), w)"
| "normalizeOutBinds (JResultSet h) w =
     (case promiseAll normalizeEntry (ownEntries (cursors w h)) w of
        (Inl e, w1) \<Rightarrow> (Inl e, w1)
      | (Inr entries, w1) \<Rightarrow> (Inr (JObject (fromEntries entries)), w1))"
| "normalizeOutBinds v w = (Inr v, w)"

section \<open>\<^verbatim>\<open>execute\<close>\<close>

text \<open>
  The method from the point where the connection has been acquired. The \<^verbatim>\<open>try\<close>
  block compiles the binds, calls \<^verbatim>\<open>connection.execute\<close> and copies five properties
  of its result into \<open>item\<close>, \<^verbatim>\<open>outBinds\<close> among them as the driver returned it; the
  \<^verbatim>\<open>catch\<close> block rethrows any error as a \<^verbatim>\<open>NodeOperationError\<close> with the same text;
  the \<^verbatim>\<open>finally\<close> block closes the connection and writes a failure of that to the
  console. The value is \<open>item\<close>, which the source returns wrapped as
  \<^verbatim>\<open>[[{json: item}]]\<close>.
\<close>

fun errorText :: "error \<Rightarrow> string" where
  "errorText (NodeOperationError msg) = msg"
| "errorText (DriverError msg) = msg"

definition tryBlock ::
  "runtime \<Rightarrow> connection \<Rightarrow> string \<Rightarrow> param list \<Rightarrow> world \<Rightarrow> (error + jsvalue) \<times> world" where
  "tryBlock rt conn query params w =
     (case compileBinds rt query params of
        Inl e \<Rightarrow> (Inl e, w)
      | Inr (query', bindParameters) \<Rightarrow>
          (case conn_execute conn query' bindParameters of
             Inl msg \<Rightarrow> (Inl (DriverError msg), emit (ConnExecute query' bindParameters) w)
           | Inr execResult \<Rightarrow>
               (Inr (JObject
                  [(''metaData'', metaData execResult),
                   (''rows'', rows execResult),
                   (''rowsAffected'', rowsAffected execResult),
                   (''lastRowid'', lastRowid execResult),
                   (''outBinds'', outBinds execResult)]),
                emit (ConnExecute query' bindParameters) w)))"

definition finallyBlock :: "connection \<Rightarrow> world \<Rightarrow> world" where
  "finallyBlock conn w =
     (case conn_close conn of
        None \<Rightarrow> emit ConnClose w
      | Some msg \<Rightarrow>
          emit (ConsoleError (''OracleDB: Failed to close the database connection: '' @ msg))
            (emit ConnClose w))"

definition execute ::
  "runtime \<Rightarrow> connection \<Rightarrow> string \<Rightarrow> param list \<Rightarrow> world \<Rightarrow> (error + jsvalue) \<times> world" where
  "execute rt conn query params w =
     (case tryBlock rt conn query params w of
        (Inl e, w1) \<Rightarrow> (Inl (NodeOperationError (errorText e)), finallyBlock conn w1)
      | (Inr item, w1) \<Rightarrow> (Inr item, finallyBlock conn w1))"

section \<open>Vocabulary of the properties\<close>

text \<open>
  The descriptors the callback throws on, read off its guards: an expanding one that is
  not IN, is a cursor or has no token left; a plain one that is a cursor and not OUT.
\<close>

definition rejected :: "param \<Rightarrow> bool" where
  "rejected item =
     (if parseInStatement item
      then direction item \<noteq> DirIn \<or> dataType item = TCursor \<or> valList item = []
      else dataType item = TCursor \<and> direction item \<noteq> DirOut)"

text \<open>The bind a plain (not expanding) descriptor compiles to, when it is not rejected.\<close>

definition plainBind :: "runtime \<Rightarrow> param \<Rightarrow> BindParameter" where
  "plainBind rt item =
     \<lparr>dir = (case direction item of DirIn \<Rightarrow> BIND_IN | DirOut \<Rightarrow> BIND_OUT | DirInOut \<Rightarrow> BIND_INOUT),
      dbType = mapDatatype (dataType item),
      val = (if direction item = DirOut then None
             else Some (coerceVal rt (valueText (rawValue item)) (dataType item))),
      outMaxSize =
        (if direction item \<noteq> DirIn \<and> dataType item = TString
         then Some (ensureOutMaxSize TString (numberOfMaxSize (maxSize item)))
         else None)\<rparr>"

text \<open>The statements a world has seen executed: its \<open>ConnExecute\<close> events.\<close>

fun isConnExecute :: "event \<Rightarrow> bool" where
  "isConnExecute (ConnExecute q b) = True"
| "isConnExecute e = False"

definition statements :: "world \<Rightarrow> event list" where
  "statements w = filter isConnExecute (events w)"

subsection \<open>Sample inputs\<close>

text \<open>
  A runtime with three UUIDs in turn, a cursor-typed OUT parameter, and a connection
  whose statement succeeds and returns cursor 0 for it; every cursor of the sample world
  holds one row.
\<close>

definition sampleUUIDs :: "string list" where
  "sampleUUIDs =
     [''3b241101-e2bb-4255-8caf-4136c566a962'',
      ''9f1c2d3e-4a5b-4c6d-8e7f-0a1b2c3d4e5f'',
      ''0e3d2c1b-7a69-4857-9463-726150fedcba'']"

definition sampleRuntime :: runtime where
  "sampleRuntime =
     \<lparr>randomUUID = (\<lambda>i. sampleUUIDs ! (i mod 3)),
      parseDate = (\<lambda>s. if s = ''1970-01-02'' then Some 86400000 else None)\<rparr>"

definition sampleParam :: param where
  "sampleParam =
     \<lparr>name = ''result'', rawValue = None, dataType = TCursor, direction = DirOut,
      maxSize = None, parseInStatement = False\<rparr>"

definition sampleRow :: jsvalue where
  "sampleRow = JObject [(''ID'', JNumber (Finite 7)), (''NAME'', JString ''seven'')]"

definition sampleResult :: execResult where
  "sampleResult =
     \<lparr>metaData = JUndefined, rows = JUndefined, rowsAffected = JUndefined,
      lastRowid = JUndefined, outBinds = JObject [(''result'', JResultSet 0)]\<rparr>"

definition sampleConnection :: connection where
  "sampleConnection = \<lparr>conn_execute = (\<lambda>q b. Inr sampleResult), conn_close = None\<rparr>"

definition sampleWorld :: world where
  "sampleWorld =
     \<lparr>cursors = (\<lambda>h. \<lparr>pending = [sampleRow], closed = False, getRowsError = None,
                        closeError = None, ownEntries = []\<rparr>),
      events = []\<rparr>"

text \<open>The IN-list parameter of the specification's example.\<close>

definition sampleIds :: param where
  "sampleIds =
     \<lparr>name = ''ids'', rawValue = Some ''1, 2, 3'', dataType = TNumber, direction = DirIn,
      maxSize = None, parseInStatement = True\<rparr>"

text \<open>How often a world has seen \<^verbatim>\<open>connection.close\<close> called.\<close>

definition closes :: "world \<Rightarrow> nat" where
  "closes w = length (filter (\<lambda>e. e = ConnClose) (events w))"

text \<open>A string OUT parameter with buffer size 0, and a number IN parameter whose text is no number.\<close>

definition sampleOut :: param where
  "sampleOut =
     \<lparr>name = ''msg'', rawValue = None, dataType = TString, direction = DirOut,
      maxSize = Some (Finite 0), parseInStatement = False\<rparr>"

definition sampleText :: param where
  "sampleText =
     \<lparr>name = ''n'', rawValue = Some ''abc'', dataType = TNumber, direction = DirIn,
      maxSize = None, parseInStatement = False\<rparr>"

text \<open>
  What the specification says of normalization, as functions of the world in which it
  starts: a cursor becomes the rows its first \<^verbatim>\<open>getRows(10000)\<close> returns there, an
  array is resolved element by element, anything else stays.
\<close>

definition fetchedRows :: "world \<Rightarrow> nat \<Rightarrow> jsvalue" where
  "fetchedRows w h = JArray (take 10000 (pending (cursors w h)))"

fun resolveElement :: "world \<Rightarrow> jsvalue \<Rightarrow> jsvalue" where
  "resolveElement w (JResultSet h) = fetchedRows w h"
| "resolveElement w v = v"

fun resolveValue :: "world \<Rightarrow> jsvalue \<Rightarrow> jsvalue" where
  "resolveValue w (JResultSet h) = fetchedRows w h"
| "resolveValue w (JArray xs) = JArray (map (resolveElement w) xs)"
| "resolveValue w v = v"

definition resolveEntry :: "world \<Rightarrow> string \<times> jsvalue \<Rightarrow> string \<times> jsvalue" where
  "resolveEntry w kv = (fst kv, resolveValue w (snd kv))"

text \<open>The cursors a value hands to \<^verbatim>\<open>readResultSet\<close>, in the order of the calls.\<close>

fun elementHandles :: "jsvalue \<Rightarrow> nat list" where
  "elementHandles (JResultSet h) = [h]"
| "elementHandles v = []"

fun valueHandles :: "jsvalue \<Rightarrow> nat list" where
  "valueHandles (JResultSet h) = [h]"
| "valueHandles (JArray xs) = concat (map elementHandles xs)"
| "valueHandles v = []"

definition entryHandles :: "string \<times> jsvalue \<Rightarrow> nat list" where
  "entryHandles kv = valueHandles (snd kv)"

text \<open>A cursor that is open and whose calls do not fail.\<close>

definition healthy :: "world \<Rightarrow> nat \<Rightarrow> bool" where
  "healthy w h =
     (\<not> closed (cursors w h) \<and> getRowsError (cursors w h) = None
      \<and> closeError (cursors w h) = None)"

text \<open>
  What the proofs need of a task \<open>f\<close> that reads the cursors \<open>H x\<close> and, when it
  succeeds, returns \<open>g w x\<close>: it changes no other cursor and reopens none; success means
  the result is \<open>g\<close> of the starting world and its cursors were open and are closed now;
  \<open>g\<close> looks at the cursors of \<open>H x\<close> only; and it succeeds on distinct healthy cursors.
\<close>

definition task_ok ::
  "('a \<Rightarrow> world \<Rightarrow> (error + 'b) \<times> world) \<Rightarrow> ('a \<Rightarrow> nat list) \<Rightarrow> (world \<Rightarrow> 'a \<Rightarrow> 'b) \<Rightarrow> bool" where
  "task_ok f H g =
     ((\<forall>x w r w'. f x w = (r, w') \<longrightarrow>
         (\<forall>h. h \<notin> set (H x) \<longrightarrow> cursors w' h = cursors w h)
         \<and> (\<forall>h. closed (cursors w h) \<longrightarrow> closed (cursors w' h))
         \<and> (\<forall>y. r = Inr y \<longrightarrow>
               y = g w x \<and> (\<forall>h\<in>set (H x). \<not> closed (cursors w h) \<and> closed (cursors w' h)))
         \<and> (distinct (H x) \<and> (\<forall>h\<in>set (H x). healthy w h) \<longrightarrow> (\<exists>y. r = Inr y)))
      \<and> (\<forall>x w w'. (\<forall>h\<in>set (H x). cursors w' h = cursors w h) \<longrightarrow> g w' x = g w x))"

text \<open>
  The identifier appended to the name at draw \<open>i\<close>, the names generated from draw \<open>n\<close>
  on, and \<^verbatim>\<open>parts.join(sep)\<close>.
\<close>

definition uniqueId :: "runtime \<Rightarrow> nat \<Rightarrow> string" where
  "uniqueId rt i = replaceAll (randomUUID rt i) ''-'' ''_''"

definition namesFrom :: "runtime \<Rightarrow> param \<Rightarrow> nat \<Rightarrow> nat \<Rightarrow> string list" where
  "namesFrom rt item n m = map (\<lambda>i. name item @ uniqueId rt i) [n..<n + m]"

definition generatedNames :: "runtime \<Rightarrow> param \<Rightarrow> nat \<Rightarrow> string list" where
  "generatedNames rt item n = namesFrom rt item n (length (valList item))"

text \<open>
  The keys a descriptor assigns when its turn comes at draw \<open>n\<close>, the number of UUIDs it
  draws, and the keys a list of descriptors assigns from draw \<open>n\<close> on.
\<close>

definition assigned :: "runtime \<Rightarrow> param \<Rightarrow> nat \<Rightarrow> string list" where
  "assigned rt item n = (if parseInStatement item then generatedNames rt item n else [name item])"

definition draws :: "param \<Rightarrow> nat" where
  "draws item = (if parseInStatement item then length (valList item) else 0)"

fun assignedFrom :: "runtime \<Rightarrow> param list \<Rightarrow> nat \<Rightarrow> string list" where
  "assignedFrom rt [] n = []"
| "assignedFrom rt (d # ds) n = assigned rt d n @ assignedFrom rt ds (n + draws d)"

fun joinWith :: "'a list \<Rightarrow> 'a list list \<Rightarrow> 'a list" where
  "joinWith sep [] = []"
| "joinWith sep [x] = x"
| "joinWith sep (x # y # zs) = x @ sep @ joinWith sep (y # zs)"



definition generatedBind :: "runtime \<Rightarrow> param \<Rightarrow> string \<Rightarrow> BindParameter" where
  "generatedBind rt item v =
     \<lparr>dir = BIND_IN, dbType = mapDatatype (dataType item),
      val = Some (coerceVal rt v (dataType item)), outMaxSize = None\<rparr>"

section \<open>Properties\<close>


subsection \<open>Which descriptors the compiler rejects\<close>

lemma compileParam_rejected:
  "rejected item \<Longrightarrow> \<exists>msg. compileParam rt item st = Inl (NodeOperationError msg)"
  by (cases st) (auto simp: compileParam_def rejected_def split: if_splits)

lemma compileParam_accepted:
  "\<not> rejected item \<Longrightarrow> \<exists>st'. compileParam rt item st = Inr st'"
  by (cases st) (auto simp: compileParam_def rejected_def split: if_splits prod.splits)

lemma compileParam_Inr_accepted:
  "compileParam rt item st = Inr st' \<Longrightarrow> \<not> rejected item"
  using compileParam_rejected [of item rt st] by auto

lemma compileParam_error:
  "compileParam rt item st = Inl e \<Longrightarrow> \<exists>msg. e = NodeOperationError msg"
  by (cases st) (auto simp: compileParam_def split: if_splits prod.splits)

lemma compileParam_plain:
  assumes "\<not> parseInStatement item" and "\<not> rejected item"
  shows "compileParam rt item (q, r, n)
           = Inr (q, assign (name item) (plainBind rt item) r, n)"
proof (cases "direction item")
  case DirIn
  with assms show ?thesis
    by (cases "dataType item") (simp_all add: compileParam_def rejected_def plainBind_def)
next
  case DirOut
  with assms show ?thesis
    by (cases "dataType item") (simp_all add: compileParam_def rejected_def plainBind_def)
next
  case DirInOut
  with assms show ?thesis
    by (cases "dataType item") (simp_all add: compileParam_def rejected_def plainBind_def)
qed

lemma reduceParams_error:
  "reduceParams rt params st = Inl e \<Longrightarrow> \<exists>msg. e = NodeOperationError msg"
proof (induction params arbitrary: st)
  case Nil
  then show ?case by simp
next
  case (Cons item items)
  then show ?case
    by (cases "compileParam rt item st") (auto dest: compileParam_error)
qed

lemma reduceParams_rejected:
  "item \<in> set params \<Longrightarrow> rejected item \<Longrightarrow> \<exists>e. reduceParams rt params st = Inl e"
proof (induction params arbitrary: st)
  case Nil
  then show ?case by simp
next
  case (Cons p ps)
  show ?case
  proof (cases "compileParam rt p st")
    case (Inl e)
    then show ?thesis by simp
  next
    case (Inr st')
    with Cons.prems compileParam_rejected [of p rt st] have "item \<in> set ps"
      by auto
    with Cons.IH Cons.prems(2) Inr show ?thesis by simp
  qed
qed

lemma compileBinds_rejected:
  assumes "item \<in> set params" and "rejected item"
  shows "\<exists>msg. compileBinds rt query params = Inl (NodeOperationError msg)"
proof -
  from reduceParams_rejected [OF assms] obtain e
    where e: "reduceParams rt params (query, [], 0) = Inl e" by blast
  with reduceParams_error obtain msg where "e = NodeOperationError msg" by blast
  with e show ?thesis by (simp add: compileBinds_def)
qed

lemma execute_compile_error:
  assumes "compileBinds rt query params = Inl (NodeOperationError msg)"
  shows "execute rt conn query params w = (Inl (NodeOperationError msg), finallyBlock conn w)"
  using assms by (simp add: execute_def tryBlock_def)

lemma statements_finallyBlock: "statements (finallyBlock conn w) = statements w"
  by (simp add: statements_def finallyBlock_def emit_def split: option.splits)

subsection \<open>The binds the compiler writes\<close>

lemma set_update_subset: "set (AList.update k v al) \<subseteq> insert (k, v) (set al)"
  by (induction al) auto

lemma set_assign_subset: "set (assign k v al) \<subseteq> insert (k, v) (set al)"
  using set_update_subset [of k v al] by (auto simp: assign_def)

lemma map_of_assign:
  "map_of (assign k v al) = (if k = ''__proto__'' then map_of al else (map_of al)(k \<mapsto> v))"
  by (simp add: assign_def update_conv')

lemma distinct_assign: "distinct (map fst al) \<Longrightarrow> distinct (map fst (assign k v al))"
  by (simp add: assign_def distinct_update)

lemma forEachVal_binds:
  assumes "forEachVal rt item vs (result, g, n) = (result', g', n')"
    and "kb \<in> set result'"
  shows "kb \<in> set result \<or>
         (\<exists>v. snd kb = \<lparr>dir = BIND_IN, dbType = mapDatatype (dataType item),
                 val = Some (coerceVal rt v (dataType item)), outMaxSize = None\<rparr>)"
  using assms
proof (induction vs arbitrary: result g n)
  case Nil
  then show ?case by simp
next
  case (Cons v vs)
  from Cons.prems Cons.IH show ?case
    using set_assign_subset by (fastforce simp: Let_def)
qed

lemma compileParam_cursor_out:
  assumes "compileParam rt item (q, r, n) = Inr (q', r', n')"
    and "\<forall>kb\<in>set r. dbType (snd kb) = DB_CURSOR \<longrightarrow> dir (snd kb) = BIND_OUT"
  shows "\<forall>kb\<in>set r'. dbType (snd kb) = DB_CURSOR \<longrightarrow> dir (snd kb) = BIND_OUT"
proof
  fix kb assume kb: "kb \<in> set r'"
  have acc: "\<not> rejected item" using assms(1) by (rule compileParam_Inr_accepted)
  show "dbType (snd kb) = DB_CURSOR \<longrightarrow> dir (snd kb) = BIND_OUT"
  proof (cases "parseInStatement item")
    case True
    with assms(1) obtain g where
      f: "forEachVal rt item (valList item) (r, ''('', n) = (r', g, n')"
      by (auto simp: compileParam_def split: if_splits prod.splits)
    from True acc have "dataType item \<noteq> TCursor" by (simp add: rejected_def)
    with forEachVal_binds [OF f kb] assms(2) show ?thesis
      by (cases "dataType item") auto
  next
    case False
    from compileParam_plain [OF False acc, of rt q r n] assms(1)
    have "r' = assign (name item) (plainBind rt item) r" by simp
    with kb set_assign_subset [of "name item" "plainBind rt item" r]
    have "kb \<in> set r \<or> snd kb = plainBind rt item" by auto
    moreover from False acc
    have "dbType (plainBind rt item) = DB_CURSOR \<longrightarrow> dir (plainBind rt item) = BIND_OUT"
      by (cases "dataType item"; cases "direction item") (simp_all add: plainBind_def rejected_def)
    ultimately show ?thesis using assms(2) by auto
  qed
qed

lemma reduceParams_cursor_out:
  assumes "reduceParams rt params (q, r, n) = Inr (q', r', n')"
    and "\<forall>kb\<in>set r. dbType (snd kb) = DB_CURSOR \<longrightarrow> dir (snd kb) = BIND_OUT"
  shows "\<forall>kb\<in>set r'. dbType (snd kb) = DB_CURSOR \<longrightarrow> dir (snd kb) = BIND_OUT"
  using assms
proof (induction params arbitrary: q r n)
  case Nil
  then show ?case by simp
next
  case (Cons item items)
  from Cons.prems(1) obtain q1 r1 n1 where
    step: "compileParam rt item (q, r, n) = Inr (q1, r1, n1)" and
    rest: "reduceParams rt items (q1, r1, n1) = Inr (q', r', n')"
    by (cases "compileParam rt item (q, r, n)") auto
  from compileParam_cursor_out [OF step Cons.prems(2)] Cons.IH [OF rest] show ?case by blast
qed

lemma compileBinds_cursor_out:
  assumes "compileBinds rt query params = Inr (sql, bs)" and "(k, b) \<in> set bs"
  shows "dbType b = DB_CURSOR \<longrightarrow> dir b = BIND_OUT"
proof -
  from assms(1) obtain n where "reduceParams rt params (query, [], 0) = Inr (sql, bs, n)"
    by (auto simp: compileBinds_def split: sum.splits)
  from reduceParams_cursor_out [OF this] assms(2) show ?thesis by fastforce
qed

subsection \<open>Cursors are output-only\<close>

text \<open>
  C3. A cursor-typed descriptor whose direction is IN or INOUT, or which asks for IN-list
  expansion, makes bind compilation fail with a validation error
  (\<open>NodeOperationError\<close>), whatever else the parameter list holds; \<open>execute\<close> then
  fails with the same error and no statement reaches the connection. Consequently, in
  every bind mapping the compiler returns, a bind of type CURSOR has direction OUT.
\<close>

theorem cursor_is_output_only:
  assumes "item \<in> set params" and "dataType item = TCursor"
    and "direction item = DirIn \<or> direction item = DirInOut \<or> parseInStatement item"
  shows "(\<exists>msg. compileBinds rt query params = Inl (NodeOperationError msg)
            \<and> fst (execute rt conn query params w) = Inl (NodeOperationError msg))
         \<and> statements (snd (execute rt conn query params w)) = statements w
         \<and> (\<forall>query' params' sql bs k b.
               compileBinds rt query' params' = Inr (sql, bs) \<longrightarrow> (k, b) \<in> set bs \<longrightarrow>
               dbType b = DB_CURSOR \<longrightarrow> dir b = BIND_OUT)"
proof -
  from assms(2,3) have "rejected item"
    by (cases "direction item") (auto simp: rejected_def)
  from compileBinds_rejected [OF assms(1) this] obtain msg
    where msg: "compileBinds rt query params = Inl (NodeOperationError msg)" by blast
  have ex: "execute rt conn query params w = (Inl (NodeOperationError msg), finallyBlock conn w)"
    by (rule execute_compile_error [OF msg])
  from msg ex show ?thesis
    using compileBinds_cursor_out by (auto simp: statements_finallyBlock)
qed

theorem cursor_is_output_only_witness:
  "compileBinds sampleRuntime ''BEGIN p(:result); END;'' [sampleParam\<lparr>direction := DirInOut\<rparr>]
     = Inl (NodeOperationError (''Parameter '' @ quoted ''result'' @ '' cannot be CURSOR with IN OUT direction.''))
   \<and> fst (execute sampleRuntime sampleConnection ''BEGIN p(:result); END;''
            [sampleParam\<lparr>direction := DirInOut\<rparr>] sampleWorld)
     = Inl (NodeOperationError (''Parameter '' @ quoted ''result'' @ '' cannot be CURSOR with IN OUT direction.''))
   \<and> statements (snd (execute sampleRuntime sampleConnection ''BEGIN p(:result); END;''
            [sampleParam\<lparr>direction := DirInOut\<rparr>] sampleWorld)) = []
   \<and> compileBinds sampleRuntime ''BEGIN p(:result); END;'' [sampleParam]
     = Inr (''BEGIN p(:result); END;'',
            [(''result'', \<lparr>dir = BIND_OUT, dbType = DB_CURSOR, val = None, outMaxSize = None\<rparr>)])"
proof -
  have h1: "sampleParam\<lparr>direction := DirInOut\<rparr> \<in> set [sampleParam\<lparr>direction := DirInOut\<rparr>]"
    by simp
  have h2: "dataType (sampleParam\<lparr>direction := DirInOut\<rparr>) = TCursor"
    by (simp add: sampleParam_def)
  have h3: "direction (sampleParam\<lparr>direction := DirInOut\<rparr>) = DirIn
            \<or> direction (sampleParam\<lparr>direction := DirInOut\<rparr>) = DirInOut
            \<or> parseInStatement (sampleParam\<lparr>direction := DirInOut\<rparr>)"
    by simp
  from cursor_is_output_only [OF h1 h2 h3, of sampleRuntime "''BEGIN p(:result); END;''"
      sampleConnection sampleWorld]
  show ?thesis
    by (simp add: compileBinds_def compileParam_def assign_def sampleParam_def statements_def
        sampleWorld_def)
qed

subsection \<open>An IN list without values\<close>

lemma execute_rejected:
  assumes "item \<in> set params" and "rejected item"
  shows "(\<exists>msg. compileBinds rt query params = Inl (NodeOperationError msg)
            \<and> fst (execute rt conn query params w) = Inl (NodeOperationError msg))
         \<and> statements (snd (execute rt conn query params w)) = statements w"
proof -
  from compileBinds_rejected [OF assms] obtain msg
    where msg: "compileBinds rt query params = Inl (NodeOperationError msg)" by blast
  from execute_compile_error [OF msg] msg show ?thesis
    by (auto simp: statements_finallyBlock)
qed

lemma split_pieces: "p \<in> set (split sep s) \<Longrightarrow> set p \<subseteq> set s - {sep}"
proof (induction s arbitrary: p)
  case Nil
  then show ?case by simp
next
  case (Cons c cs)
  show ?case
  proof (cases "c = sep")
    case True
    with Cons show ?thesis by auto
  next
    case False
    show ?thesis
    proof (cases "split sep cs")
      case Nil
      with False Cons.prems show ?thesis by auto
    next
      case (Cons a list)
      have a: "set a \<subseteq> set cs - {sep}"
        and l: "\<And>x. x \<in> set list \<Longrightarrow> set x \<subseteq> set cs - {sep}"
        using Cons.IH Cons by auto
      from Cons.prems False Cons have "p = c # a \<or> p \<in> set list" by auto
      with a l False show ?thesis by auto
    qed
  qed
qed

lemma trim_blank:
  assumes "\<forall>c\<in>set s. isWhiteSpace c"
  shows "trim s = []"
  using assms by (auto simp: trim_def dest: set_dropWhileD)

text \<open>A value of white space and commas only leaves no token.\<close>

lemma valList_blank:
  assumes "\<forall>c\<in>set (valueText (rawValue item)). isWhiteSpace c \<or> c = CHR '',''"
  shows "valList item = []"
proof -
  have "trim p = []" if "p \<in> set (split (CHR '','') (valueText (rawValue item)))" for p
    using split_pieces [OF that] assms by (intro trim_blank) auto
  then show ?thesis
    by (auto simp: valList_def filter_empty_conv)
qed

text \<open>
  C4. An expanding descriptor whose value leaves no token after splitting on commas,
  trimming and dropping the empty pieces makes bind compilation fail with a validation
  error, wherever it stands in the parameter list; \<open>execute\<close> fails with that error and
  no statement reaches the connection.
\<close>

theorem empty_in_list_rejected:
  assumes "item \<in> set params" and "parseInStatement item" and "valList item = []"
  shows "(\<exists>msg. compileBinds rt query params = Inl (NodeOperationError msg)
            \<and> fst (execute rt conn query params w) = Inl (NodeOperationError msg))
         \<and> statements (snd (execute rt conn query params w)) = statements w"
proof -
  from assms(2,3) have "rejected item" by (simp add: rejected_def)
  with assms(1) show ?thesis by (rule execute_rejected)
qed

theorem empty_in_list_rejected_witness:
  "valList (sampleIds\<lparr>rawValue := Some '' , ''\<rparr>) = []
   \<and> compileBinds sampleRuntime ''SELECT id FROM t WHERE id IN (:ids)''
       [sampleIds\<lparr>rawValue := Some '' , ''\<rparr>]
     = Inl (NodeOperationError (''Parameter '' @ quoted ''ids'' @ '' has no values for IN list.''))
   \<and> fst (execute sampleRuntime sampleConnection ''SELECT id FROM t WHERE id IN (:ids)''
       [sampleIds\<lparr>rawValue := Some '' , ''\<rparr>] sampleWorld)
     = Inl (NodeOperationError (''Parameter '' @ quoted ''ids'' @ '' has no values for IN list.''))
   \<and> statements (snd (execute sampleRuntime sampleConnection ''SELECT id FROM t WHERE id IN (:ids)''
       [sampleIds\<lparr>rawValue := Some '' , ''\<rparr>] sampleWorld)) = []"
proof -
  have h1: "sampleIds\<lparr>rawValue := Some '' , ''\<rparr> \<in> set [sampleIds\<lparr>rawValue := Some '' , ''\<rparr>]"
    by simp
  have h2: "parseInStatement (sampleIds\<lparr>rawValue := Some '' , ''\<rparr>)"
    by (simp add: sampleIds_def)
  have h3: "valList (sampleIds\<lparr>rawValue := Some '' , ''\<rparr>) = []"
    by (simp add: valList_def valueText_def trim_def isWhiteSpace_def)
  from empty_in_list_rejected [OF h1 h2 h3, of sampleRuntime
      "''SELECT id FROM t WHERE id IN (:ids)''" sampleConnection sampleWorld] h3
  show ?thesis
    by (simp add: compileBinds_def compileParam_def assign_def sampleIds_def statements_def
        sampleWorld_def)
qed

subsection \<open>A number without a value\<close>

lemma toNumber_empty: "toNumber [] = Finite 0"
  by (simp add: toNumber_def trim_def)

text \<open>
  C9. A plain (not expanding) IN or INOUT descriptor of datatype number whose value is
  missing or the empty string compiles without error, at any point of the reduction and
  as a list of its own, and its bind holds the number 0: \<^verbatim>\<open>String(value ?? "")\<close> is
  the empty string and \<^verbatim>\<open>Number("")\<close> is 0. The bind is assigned to the mapping under
  the name of the descriptor; compiled alone, the descriptor gives the mapping with this
  one entry (and the empty mapping for the name \<^verbatim>\<open>__proto__\<close>, where the assignment of
  the same bind sets the prototype).
\<close>

theorem missing_number_is_zero:
  assumes "\<not> parseInStatement item"
    and "direction item = DirIn \<or> direction item = DirInOut"
    and "dataType item = TNumber"
    and "rawValue item = None \<or> rawValue item = Some []"
  shows "compileParam rt item (q, r, n)
           = Inr (q,
                  assign (name item)
                    \<lparr>dir = (if direction item = DirIn then BIND_IN else BIND_INOUT),
                     dbType = DB_NUMBER, val = Some (JNumber (Finite 0)), outMaxSize = None\<rparr> r,
                  n)
         \<and> compileBinds rt q [item]
           = Inr (q,
                  if name item = ''__proto__'' then []
                  else [(name item,
                         \<lparr>dir = (if direction item = DirIn then BIND_IN else BIND_INOUT),
                          dbType = DB_NUMBER, val = Some (JNumber (Finite 0)),
                          outMaxSize = None\<rparr>)])"
proof -
  from assms(4) have "valueText (rawValue item) = []"
    by (auto simp: valueText_def)
  with assms(1-3) show ?thesis
    by (auto simp: compileBinds_def compileParam_def coerceVal_def toNumber_empty assign_def)
qed

theorem missing_number_is_zero_witness:
  "compileBinds sampleRuntime ''UPDATE t SET n = :ids''
     [sampleIds\<lparr>rawValue := None, parseInStatement := False\<rparr>]
   = Inr (''UPDATE t SET n = :ids'',
          [(''ids'', \<lparr>dir = BIND_IN, dbType = DB_NUMBER, val = Some (JNumber (Finite 0)),
                      outMaxSize = None\<rparr>)])"
proof -
  have h1: "\<not> parseInStatement (sampleIds\<lparr>rawValue := None, parseInStatement := False\<rparr>)"
    by simp
  have h2: "direction (sampleIds\<lparr>rawValue := None, parseInStatement := False\<rparr>) = DirIn
            \<or> direction (sampleIds\<lparr>rawValue := None, parseInStatement := False\<rparr>) = DirInOut"
    by (simp add: sampleIds_def)
  have h3: "dataType (sampleIds\<lparr>rawValue := None, parseInStatement := False\<rparr>) = TNumber"
    by (simp add: sampleIds_def)
  have h4: "rawValue (sampleIds\<lparr>rawValue := None, parseInStatement := False\<rparr>) = None
            \<or> rawValue (sampleIds\<lparr>rawValue := None, parseInStatement := False\<rparr>) = Some []"
    by simp
  from missing_number_is_zero [OF h1 h2 h3 h4, of sampleRuntime "''UPDATE t SET n = :ids''"]
  show ?thesis by (simp add: sampleIds_def)
qed

subsection \<open>Closing the connection\<close>

lemma closes_tryBlock: "closes (snd (tryBlock rt conn query params w)) = closes w"
  by (simp add: tryBlock_def closes_def emit_def split: sum.splits prod.splits)

text \<open>
  C8. Whatever the \<^verbatim>\<open>try\<close> block did (it returned the record, the compiler threw, or
  the statement failed), \<open>execute\<close> calls \<^verbatim>\<open>connection.close\<close> exactly once, after
  everything the \<^verbatim>\<open>try\<close> block did. When the close fails, the failure is written to
  the console and nothing else happens: the outcome of \<open>execute\<close> is the outcome of the
  \<^verbatim>\<open>try\<close> block (its record, or its error rethrown with the same text), and it is the
  same for every outcome of the close.
\<close>

theorem connection_always_closed:
  "closes (snd (execute rt conn query params w)) = Suc (closes w)
   \<and> events (snd (execute rt conn query params w))
       = events (snd (tryBlock rt conn query params w))
         @ ConnClose
         # (case conn_close conn of
              None \<Rightarrow> []
            | Some msg \<Rightarrow>
                [ConsoleError (''OracleDB: Failed to close the database connection: '' @ msg)])
   \<and> fst (execute rt conn query params w)
       = (case fst (tryBlock rt conn query params w) of
            Inl e \<Rightarrow> Inl (NodeOperationError (errorText e))
          | Inr item \<Rightarrow> Inr item)
   \<and> fst (execute rt conn query params w)
       = fst (execute rt (conn\<lparr>conn_close := outcome\<rparr>) query params w)"
proof -
  obtain res w1 where t: "tryBlock rt conn query params w = (res, w1)"
    by (cases "tryBlock rt conn query params w")
  have same: "tryBlock rt (conn\<lparr>conn_close := outcome\<rparr>) query params w
                = tryBlock rt conn query params w"
    by (simp add: tryBlock_def split: sum.splits prod.splits)
  from closes_tryBlock [of rt conn query params w] t have c: "closes w1 = closes w" by simp
  from t c same show ?thesis
    by (cases res)
      (auto simp: execute_def finallyBlock_def emit_def closes_def split: option.splits)
qed

theorem connection_always_closed_witness:
  "fst (execute sampleRuntime (sampleConnection\<lparr>conn_close := Some ''Error: DPI-1010: not connected''\<rparr>)
          ''BEGIN p(:result); END;'' [sampleParam] sampleWorld)
     = fst (execute sampleRuntime sampleConnection ''BEGIN p(:result); END;'' [sampleParam] sampleWorld)
   \<and> events (snd (execute sampleRuntime
          (sampleConnection\<lparr>conn_close := Some ''Error: DPI-1010: not connected''\<rparr>)
          ''BEGIN p(:result); END;'' [sampleParam] sampleWorld))
     = [ConnExecute ''BEGIN p(:result); END;''
          [(''result'', \<lparr>dir = BIND_OUT, dbType = DB_CURSOR, val = None, outMaxSize = None\<rparr>)],
        ConnClose,
        ConsoleError (''OracleDB: Failed to close the database connection: ''
                      @ ''Error: DPI-1010: not connected'')]
   \<and> closes (snd (execute sampleRuntime
          (sampleConnection\<lparr>conn_close := Some ''Error: DPI-1010: not connected''\<rparr>)
          ''BEGIN p(:result); END;'' [sampleParam] sampleWorld)) = 1"
  using connection_always_closed [of sampleRuntime
      "sampleConnection\<lparr>conn_close := Some ''Error: DPI-1010: not connected''\<rparr>"
      "''BEGIN p(:result); END;''" "[sampleParam]" sampleWorld None]
  by (simp add: execute_def finallyBlock_def tryBlock_def compileBinds_def compileParam_def assign_def
      sampleParam_def sampleConnection_def sampleWorld_def emit_def closes_def)

subsection \<open>The record that \<open>execute\<close> returns\<close>

lemma cursors_finallyBlock: "cursors (finallyBlock conn w) = cursors w"
  by (simp add: finallyBlock_def emit_def split: option.splits)

lemma cursors_tryBlock: "cursors (snd (tryBlock rt conn query params w)) = cursors w"
  by (simp add: tryBlock_def emit_def split: sum.splits prod.splits)

text \<open>
  C1. The claim does not hold of the code: \<open>execute\<close> copies \<^verbatim>\<open>execResult.outBinds\<close>
  into the record as the driver returned it and never calls \<^verbatim>\<open>normalizeOutBinds\<close>.
  For the cursor-typed OUT parameter \<^verbatim>\<open>result\<close> and a successful statement, the
  record's \<^verbatim>\<open>outBinds.result\<close> is the cursor object itself, the only calls are the
  statement and the close of the connection (no \<^verbatim>\<open>getRows\<close>, no \<^verbatim>\<open>close\<close> of the
  cursor), whereas \<^verbatim>\<open>normalizeOutBinds\<close> on the same output binds yields the row
  array. No run of \<open>execute\<close> changes any cursor.
\<close>

theorem execute_returns_unread_cursor:
  "fst (execute sampleRuntime sampleConnection ''BEGIN p(:result); END;'' [sampleParam] sampleWorld)
     = Inr (JObject
         [(''metaData'', JUndefined), (''rows'', JUndefined), (''rowsAffected'', JUndefined),
          (''lastRowid'', JUndefined), (''outBinds'', JObject [(''result'', JResultSet 0)])])
   \<and> events (snd (execute sampleRuntime sampleConnection ''BEGIN p(:result); END;''
        [sampleParam] sampleWorld))
     = [ConnExecute ''BEGIN p(:result); END;''
          [(''result'', \<lparr>dir = BIND_OUT, dbType = DB_CURSOR, val = None, outMaxSize = None\<rparr>)],
        ConnClose]
   \<and> fst (normalizeOutBinds (JObject [(''result'', JResultSet 0)]) sampleWorld)
     = Inr (JObject [(''result'', JArray [sampleRow])])
   \<and> cursors (snd (execute rt conn query params w)) = cursors w"
proof -
  have "cursors (snd (execute rt conn query params w)) = cursors w"
    using cursors_tryBlock [of rt conn query params w]
    by (cases "tryBlock rt conn query params w")
      (auto simp: execute_def cursors_finallyBlock split: sum.splits)
  then show ?thesis
    by (simp add: execute_def finallyBlock_def tryBlock_def compileBinds_def compileParam_def assign_def
        sampleParam_def sampleConnection_def sampleResult_def sampleWorld_def emit_def
        readResultSet_def rs_getRows_def rs_close_def fromEntries_def)
qed

subsection \<open>The output buffer size\<close>

lemma compileParam_new_binds:
  assumes "compileParam rt item (q, r, n) = Inr (q', r', n')" and "kb \<in> set r'"
  shows "kb \<in> set r
         \<or> (parseInStatement item \<and>
            (\<exists>v. snd kb = \<lparr>dir = BIND_IN, dbType = mapDatatype (dataType item),
                    val = Some (coerceVal rt v (dataType item)), outMaxSize = None\<rparr>))
         \<or> (\<not> parseInStatement item \<and> \<not> rejected item \<and> snd kb = plainBind rt item)"
proof -
  have acc: "\<not> rejected item" using assms(1) by (rule compileParam_Inr_accepted)
  show ?thesis
  proof (cases "parseInStatement item")
    case True
    with assms(1) obtain g where
      f: "forEachVal rt item (valList item) (r, ''('', n) = (r', g, n')"
      by (auto simp: compileParam_def split: if_splits prod.splits)
    from forEachVal_binds [OF f assms(2)] True show ?thesis by blast
  next
    case False
    from compileParam_plain [OF False acc, of rt q r n] assms(1)
    have "r' = assign (name item) (plainBind rt item) r" by simp
    with assms(2) set_assign_subset [of "name item" "plainBind rt item" r]
    have "kb \<in> set r \<or> snd kb = plainBind rt item" by auto
    with False acc show ?thesis by blast
  qed
qed

lemma reduceParams_new_binds:
  assumes "reduceParams rt params (q, r, n) = Inr (q', r', n')" and "kb \<in> set r'"
  shows "kb \<in> set r
         \<or> (\<exists>item\<in>set params.
              (parseInStatement item \<and>
                (\<exists>v. snd kb = \<lparr>dir = BIND_IN, dbType = mapDatatype (dataType item),
                        val = Some (coerceVal rt v (dataType item)), outMaxSize = None\<rparr>))
              \<or> (\<not> parseInStatement item \<and> \<not> rejected item \<and> snd kb = plainBind rt item))"
  using assms
proof (induction params arbitrary: q r n)
  case Nil
  then show ?case by simp
next
  case (Cons item items)
  from Cons.prems(1) obtain q1 r1 n1 where
    step: "compileParam rt item (q, r, n) = Inr (q1, r1, n1)" and
    rest: "reduceParams rt items (q1, r1, n1) = Inr (q', r', n')"
    by (cases "compileParam rt item (q, r, n)") auto
  from Cons.IH [OF rest Cons.prems(2)] compileParam_new_binds [OF step, of kb]
  show ?case by auto
qed

lemma compileBinds_new_binds:
  assumes "compileBinds rt query params = Inr (sql, bs)" and "kb \<in> set bs"
  shows "\<exists>item\<in>set params.
           (parseInStatement item \<and>
             (\<exists>v. snd kb = \<lparr>dir = BIND_IN, dbType = mapDatatype (dataType item),
                     val = Some (coerceVal rt v (dataType item)), outMaxSize = None\<rparr>))
           \<or> (\<not> parseInStatement item \<and> \<not> rejected item \<and> snd kb = plainBind rt item)"
proof -
  from assms(1) obtain n where "reduceParams rt params (query, [], 0) = Inr (sql, bs, n)"
    by (auto simp: compileBinds_def split: sum.splits)
  from reduceParams_new_binds [OF this assms(2)] show ?thesis by simp
qed

lemma compileBinds_plain:
  assumes "\<not> parseInStatement item" and "\<not> rejected item"
  shows "compileBinds rt q [item] = Inr (q, assign (name item) (plainBind rt item) [])"
  using compileParam_plain [OF assms, of rt q "[]" 0] by (simp add: compileBinds_def)

lemma plainBind_nonstring:
  "dbType (plainBind rt item) \<noteq> DB_STRING \<Longrightarrow> outMaxSize (plainBind rt item) = None"
  by (cases "dataType item") (simp_all add: plainBind_def)

text \<open>
  C5, as stated, fails for a supplied size of 0: the numeric \<^verbatim>\<open>maxSize\<close> 0 is not
  carried through, the bind gets 2000.
\<close>

theorem zero_max_size_counterexample:
  "maxSize sampleOut = Some (Finite 0)
   \<and> compileBinds sampleRuntime ''BEGIN p(:msg); END;'' [sampleOut]
     = Inr (''BEGIN p(:msg); END;'',
            [(''msg'', \<lparr>dir = BIND_OUT, dbType = DB_STRING, val = None,
                        outMaxSize = Some (Finite 2000)\<rparr>)])"
  by (simp add: compileBinds_def compileParam_def assign_def sampleOut_def ensureOutMaxSize_def
      numberOfMaxSize_def falsyNumber_def)

text \<open>
  C5, amended. A plain (not expanding) string-typed descriptor with direction OUT or
  INOUT compiles to a STRING bind whose buffer size is 2000 when \<^verbatim>\<open>maxSize\<close> is
  unset, NaN or 0, and is the supplied number in every other case. The bind is assigned
  to the mapping under the name of the descriptor; compiled alone, the descriptor gives
  the mapping with this one entry (and the empty mapping for the name \<^verbatim>\<open>__proto__\<close>,
  where the assignment of the same bind sets the prototype). In every bind mapping the
  compiler returns, a bind whose type is not STRING carries no buffer size.
\<close>

theorem out_max_size:
  assumes "\<not> parseInStatement item"
    and "direction item = DirOut \<or> direction item = DirInOut"
    and "dataType item = TString"
  shows "(\<exists>b. compileParam rt item (q, r, n) = Inr (q, assign (name item) b r, n)
            \<and> compileBinds rt q [item]
                = Inr (q, if name item = ''__proto__'' then [] else [(name item, b)])
            \<and> dbType b = DB_STRING
            \<and> outMaxSize b
                = Some (case maxSize item of
                          None \<Rightarrow> Finite 2000
                        | Some m \<Rightarrow> if m = NaN \<or> m = Finite 0 then Finite 2000 else m))
         \<and> (\<forall>q' params' sql bs kb.
               compileBinds rt q' params' = Inr (sql, bs) \<longrightarrow> kb \<in> set bs \<longrightarrow>
               dbType (snd kb) \<noteq> DB_STRING \<longrightarrow> outMaxSize (snd kb) = None)"
proof -
  from assms have acc: "\<not> rejected item" by (simp add: rejected_def)
  have step: "compileParam rt item (q, r, n)
                = Inr (q, assign (name item) (plainBind rt item) r, n)"
    by (rule compileParam_plain [OF assms(1) acc])
  have one: "compileBinds rt q [item]
               = Inr (q, if name item = ''__proto__'' then []
                         else [(name item, plainBind rt item)])"
    using compileBinds_plain [OF assms(1) acc, of rt q] by (simp add: assign_def)
  from assms have size: "outMaxSize (plainBind rt item)
      = Some (case maxSize item of
                None \<Rightarrow> Finite 2000
              | Some m \<Rightarrow> if m = NaN \<or> m = Finite 0 then Finite 2000 else m)"
    by (auto simp: plainBind_def ensureOutMaxSize_def numberOfMaxSize_def falsyNumber_def
        split: option.splits)
  from assms have ty: "dbType (plainBind rt item) = DB_STRING"
    by (simp add: plainBind_def)
  have inv: "outMaxSize (snd kb) = None"
    if "compileBinds rt q' params' = Inr (sql, bs)" "kb \<in> set bs" "dbType (snd kb) \<noteq> DB_STRING"
    for q' params' sql bs kb
    using compileBinds_new_binds [OF that(1,2)] that(3) plainBind_nonstring by auto
  from step one size ty inv show ?thesis by blast
qed

theorem out_max_size_witness:
  "compileBinds sampleRuntime ''BEGIN p(:msg); END;'' [sampleOut\<lparr>maxSize := None\<rparr>]
     = Inr (''BEGIN p(:msg); END;'',
            [(''msg'', \<lparr>dir = BIND_OUT, dbType = DB_STRING, val = None,
                        outMaxSize = Some (Finite 2000)\<rparr>)])
   \<and> compileBinds sampleRuntime ''BEGIN p(:msg); END;'' [sampleOut\<lparr>maxSize := Some (Finite 4000)\<rparr>]
     = Inr (''BEGIN p(:msg); END;'',
            [(''msg'', \<lparr>dir = BIND_OUT, dbType = DB_STRING, val = None,
                        outMaxSize = Some (Finite 4000)\<rparr>)])"
proof -
  let ?a = "sampleOut\<lparr>maxSize := None\<rparr>"
  let ?b = "sampleOut\<lparr>maxSize := Some (Finite 4000)\<rparr>"
  have a1: "\<not> parseInStatement ?a" and b1: "\<not> parseInStatement ?b"
    by (simp_all add: sampleOut_def)
  have a2: "direction ?a = DirOut \<or> direction ?a = DirInOut"
    and b2: "direction ?b = DirOut \<or> direction ?b = DirInOut"
    by (simp_all add: sampleOut_def)
  have a3: "dataType ?a = TString" and b3: "dataType ?b = TString"
    by (simp_all add: sampleOut_def)
  from out_max_size [OF a1 a2 a3, of sampleRuntime "''BEGIN p(:msg); END;''"]
    out_max_size [OF b1 b2 b3, of sampleRuntime "''BEGIN p(:msg); END;''"]
  show ?thesis
    by (simp add: compileBinds_def compileParam_def assign_def sampleOut_def ensureOutMaxSize_def
        numberOfMaxSize_def falsyNumber_def)
qed

subsection \<open>Normalizing output binds\<close>

lemma readResultSet_frame:
  assumes "readResultSet h w = (r, w')"
  shows "(\<forall>h'. h' \<noteq> h \<longrightarrow> cursors w' h' = cursors w h')
         \<and> (\<forall>h'. closed (cursors w h') \<longrightarrow> closed (cursors w' h'))"
  using assms
  by (auto simp: readResultSet_def rs_getRows_def rs_close_def emit_def Let_def
      split: if_splits option.splits)

lemma readResultSet_success:
  assumes "readResultSet h w = (Inr y, w')"
  shows "y = fetchedRows w h \<and> \<not> closed (cursors w h) \<and> closed (cursors w' h)"
  using assms
  by (auto simp: readResultSet_def rs_getRows_def rs_close_def emit_def Let_def fetchedRows_def
      split: if_splits option.splits)

lemma readResultSet_healthy:
  assumes "healthy w h"
  shows "\<exists>y w'. readResultSet h w = (Inr y, w')"
  using assms
  by (auto simp: readResultSet_def rs_getRows_def rs_close_def emit_def Let_def healthy_def)

lemma task_okI:
  assumes "\<And>x w r w' h. f x w = (r, w') \<Longrightarrow> h \<notin> set (H x) \<Longrightarrow> cursors w' h = cursors w h"
    and "\<And>x w r w' h. f x w = (r, w') \<Longrightarrow> closed (cursors w h) \<Longrightarrow> closed (cursors w' h)"
    and "\<And>x w y w'. f x w = (Inr y, w') \<Longrightarrow> y = g w x"
    and "\<And>x w y w' h. f x w = (Inr y, w') \<Longrightarrow> h \<in> set (H x) \<Longrightarrow>
           \<not> closed (cursors w h) \<and> closed (cursors w' h)"
    and "\<And>x w r w'. f x w = (r, w') \<Longrightarrow> distinct (H x) \<Longrightarrow> \<forall>h\<in>set (H x). healthy w h \<Longrightarrow>
           \<exists>y. r = Inr y"
    and "\<And>x w w'. \<forall>h\<in>set (H x). cursors w' h = cursors w h \<Longrightarrow> g w' x = g w x"
  shows "task_ok f H g"
  unfolding task_ok_def
proof (intro conjI allI impI ballI)
  fix x w r w' h
  assume "f x w = (r, w')" and "h \<notin> set (H x)"
  then show "cursors w' h = cursors w h" by (rule assms(1))
next
  fix x w r w' h
  assume "f x w = (r, w')" and "closed (cursors w h)"
  then show "closed (cursors w' h)" by (rule assms(2))
next
  fix x w r w' y
  assume "f x w = (r, w')" and "r = Inr y"
  then have "f x w = (Inr y, w')" by simp
  then show "y = g w x" by (rule assms(3))
next
  fix x w r w' y h
  assume "f x w = (r, w')" and "r = Inr y" and h: "h \<in> set (H x)"
  then have "f x w = (Inr y, w')" by simp
  from assms(4) [OF this h]
  show "\<not> closed (cursors w h)" and "closed (cursors w' h)" by simp_all
next
  fix x w r w'
  assume "f x w = (r, w')" and "distinct (H x) \<and> (\<forall>h\<in>set (H x). healthy w h)"
  then show "\<exists>y. r = Inr y" using assms(5) by blast
next
  fix x and w w' :: world
  assume "\<forall>h\<in>set (H x). cursors w' h = cursors w h"
  then show "g w' x = g w x" by (rule assms(6))
qed

lemma task_ok_frame:
  "task_ok f H g \<Longrightarrow> f x w = (r, w') \<Longrightarrow> h \<notin> set (H x) \<Longrightarrow> cursors w' h = cursors w h"
  unfolding task_ok_def by blast

lemma task_ok_closed:
  "task_ok f H g \<Longrightarrow> f x w = (r, w') \<Longrightarrow> closed (cursors w h) \<Longrightarrow> closed (cursors w' h)"
  unfolding task_ok_def by blast

lemma task_ok_result:
  "task_ok f H g \<Longrightarrow> f x w = (Inr y, w') \<Longrightarrow> y = g w x"
  unfolding task_ok_def by blast

lemma task_ok_reads:
  "task_ok f H g \<Longrightarrow> f x w = (Inr y, w') \<Longrightarrow> h \<in> set (H x) \<Longrightarrow>
     \<not> closed (cursors w h) \<and> closed (cursors w' h)"
  unfolding task_ok_def by blast

lemma task_ok_succeeds:
  "task_ok f H g \<Longrightarrow> f x w = (r, w') \<Longrightarrow> distinct (H x) \<Longrightarrow> \<forall>h\<in>set (H x). healthy w h \<Longrightarrow>
     \<exists>y. r = Inr y"
  unfolding task_ok_def by blast

lemma task_ok_local:
  "task_ok f H g \<Longrightarrow> \<forall>h\<in>set (H x). cursors w' h = cursors w h \<Longrightarrow> g w' x = g w x"
  unfolding task_ok_def by blast

lemma task_ok_normalizeElement: "task_ok normalizeElement elementHandles resolveElement"
proof (rule task_okI)
  fix x w r w' h
  assume f: "normalizeElement x w = (r, w')"
  show "cursors w' h = cursors w h" if "h \<notin> set (elementHandles x)"
    using f that readResultSet_frame by (cases x) auto
  show "closed (cursors w' h)" if "closed (cursors w h)"
    using f that readResultSet_frame by (cases x) auto
  show "\<exists>y. r = Inr y" if "distinct (elementHandles x)" "\<forall>h\<in>set (elementHandles x). healthy w h"
    using f that readResultSet_healthy by (cases x) fastforce+
next
  fix x w y w' h
  assume f: "normalizeElement x w = (Inr y, w')"
  show "y = resolveElement w x"
    using f readResultSet_success by (cases x) auto
  show "\<not> closed (cursors w h) \<and> closed (cursors w' h)" if "h \<in> set (elementHandles x)"
    using f that readResultSet_success by (cases x) auto
next
  fix x and w w' :: world
  assume "\<forall>h\<in>set (elementHandles x). cursors w' h = cursors w h"
  then show "resolveElement w' x = resolveElement w x"
    by (cases x) (auto simp: fetchedRows_def)
qed

text \<open>\<^verbatim>\<open>Promise.all\<close> over tasks of that kind is a task of that kind.\<close>

lemma promiseAll_Cons:
  assumes "promiseAll f (x # xs) w = (r, w')"
  obtains r1 w1 rs where "f x w = (r1, w1)" and "promiseAll f xs w1 = (rs, w')"
    and "r = (case r1 of Inl e \<Rightarrow> Inl e
              | Inr y \<Rightarrow> (case rs of Inl e \<Rightarrow> Inl e | Inr ys \<Rightarrow> Inr (y # ys)))"
  using assms by (auto split: prod.splits)

lemma task_ok_promiseAll:
  assumes ok: "task_ok f H g"
  shows "task_ok (promiseAll f) (\<lambda>xs. concat (map H xs)) (\<lambda>w xs. map (g w) xs)"
proof -
  have frame: "cursors w' h = cursors w h"
    if "promiseAll f xs w = (r, w')" "h \<notin> set (concat (map H xs))" for xs w r w' h
    using that
  proof (induction xs arbitrary: w r)
    case Nil
    then show ?case by simp
  next
    case (Cons x xs)
    from Cons.prems(1) obtain r1 w1 rs where
      f: "f x w = (r1, w1)" and rest: "promiseAll f xs w1 = (rs, w')"
      by (rule promiseAll_Cons)
    from Cons.prems(2) have "h \<notin> set (H x)" and "h \<notin> set (concat (map H xs))" by auto
    with task_ok_frame [OF ok f] Cons.IH [OF rest] show ?case by simp
  qed
  have mono: "closed (cursors w' h)"
    if "promiseAll f xs w = (r, w')" "closed (cursors w h)" for xs w r w' h
    using that
  proof (induction xs arbitrary: w r)
    case Nil
    then show ?case by simp
  next
    case (Cons x xs)
    from Cons.prems(1) obtain r1 w1 rs where
      f: "f x w = (r1, w1)" and rest: "promiseAll f xs w1 = (rs, w')"
      by (rule promiseAll_Cons)
    from task_ok_closed [OF ok f Cons.prems(2)] Cons.IH [OF rest] show ?case by simp
  qed
  have reads: "\<not> closed (cursors w h) \<and> closed (cursors w' h)"
    if "promiseAll f xs w = (Inr ys, w')" "h \<in> set (concat (map H xs))" for xs w ys w' h
    using that
  proof (induction xs arbitrary: w ys)
    case Nil
    then show ?case by simp
  next
    case (Cons x xs)
    from Cons.prems(1) obtain r1 w1 rs where
      f: "f x w = (r1, w1)" and rest: "promiseAll f xs w1 = (rs, w')"
      and r: "Inr ys = (case r1 of Inl e \<Rightarrow> Inl e
              | Inr y \<Rightarrow> (case rs of Inl e \<Rightarrow> Inl e | Inr ys \<Rightarrow> Inr (y # ys)))"
      by (rule promiseAll_Cons)
    from r obtain y ys' where r1: "r1 = Inr y" and rs: "rs = Inr ys'"
      by (auto split: sum.splits)
    from Cons.prems(2) consider "h \<in> set (H x)" | "h \<in> set (concat (map H xs))" by auto
    then show ?case
    proof cases
      case 1
      from task_ok_reads [OF ok f [unfolded r1] 1] mono [OF rest] show ?thesis by blast
    next
      case 2
      from Cons.IH [OF rest [unfolded rs] 2] task_ok_closed [OF ok f] show ?thesis by blast
    qed
  qed
  have result: "ys = map (g w) xs"
    if "promiseAll f xs w = (Inr ys, w')" for xs w ys w'
    using that
  proof (induction xs arbitrary: w ys)
    case Nil
    then show ?case by simp
  next
    case (Cons x xs)
    from Cons.prems(1) obtain r1 w1 rs where
      f: "f x w = (r1, w1)" and rest: "promiseAll f xs w1 = (rs, w')"
      and r: "Inr ys = (case r1 of Inl e \<Rightarrow> Inl e
              | Inr y \<Rightarrow> (case rs of Inl e \<Rightarrow> Inl e | Inr ys \<Rightarrow> Inr (y # ys)))"
      by (rule promiseAll_Cons)
    from r obtain y ys' where r1: "r1 = Inr y" and rs: "rs = Inr ys'" and ys: "ys = y # ys'"
      by (auto split: sum.splits)
    have y: "y = g w x" by (rule task_ok_result [OF ok f [unfolded r1]])
    have ys': "ys' = map (g w1) xs" by (rule Cons.IH [OF rest [unfolded rs]])
    have "g w1 x' = g w x'" if x': "x' \<in> set xs" for x'
    proof (rule task_ok_local [OF ok], rule ballI)
      fix h assume h: "h \<in> set (H x')"
      with x' have "h \<in> set (concat (map H xs))" by auto
      from reads [OF rest [unfolded rs] this] have "\<not> closed (cursors w1 h)" by simp
      with task_ok_reads [OF ok f [unfolded r1]] have "h \<notin> set (H x)" by blast
      from task_ok_frame [OF ok f this] show "cursors w1 h = cursors w h" .
    qed
    with y ys' ys show ?case by simp
  qed
  have succeeds: "\<exists>ys. r = Inr ys"
    if "promiseAll f xs w = (r, w')" "distinct (concat (map H xs))"
      "\<forall>h\<in>set (concat (map H xs)). healthy w h" for xs w r w'
    using that
  proof (induction xs arbitrary: w r)
    case Nil
    then show ?case by auto
  next
    case (Cons x xs)
    from Cons.prems(1) obtain r1 w1 rs where
      f: "f x w = (r1, w1)" and rest: "promiseAll f xs w1 = (rs, w')"
      and r: "r = (case r1 of Inl e \<Rightarrow> Inl e
              | Inr y \<Rightarrow> (case rs of Inl e \<Rightarrow> Inl e | Inr ys \<Rightarrow> Inr (y # ys)))"
      by (rule promiseAll_Cons)
    from Cons.prems(2) have dx: "distinct (H x)" and dxs: "distinct (concat (map H xs))"
      and disj: "set (H x) \<inter> set (concat (map H xs)) = {}" by auto
    from Cons.prems(3) have hx: "\<forall>h\<in>set (H x). healthy w h" by simp
    from task_ok_succeeds [OF ok f dx hx] obtain y where r1: "r1 = Inr y" ..
    have "healthy w1 h" if h: "h \<in> set (concat (map H xs))" for h
    proof -
      from h disj have "h \<notin> set (H x)" by auto
      from task_ok_frame [OF ok f this] have "cursors w1 h = cursors w h" .
      moreover from Cons.prems(3) h have "healthy w h" by simp
      ultimately show ?thesis by (simp add: healthy_def)
    qed
    then have "\<forall>h\<in>set (concat (map H xs)). healthy w1 h" by blast
    from Cons.IH [OF rest dxs this] obtain ys where "rs = Inr ys" ..
    with r r1 show ?case by simp
  qed
  have local: "map (g w') xs = map (g w) xs"
    if "\<forall>h\<in>set (concat (map H xs)). cursors w' h = cursors w h" for xs and w w' :: world
    using that
  proof (induction xs)
    case Nil
    then show ?case by simp
  next
    case (Cons x xs)
    from Cons.prems have "\<forall>h\<in>set (H x). cursors w' h = cursors w h"
      and "\<forall>h\<in>set (concat (map H xs)). cursors w' h = cursors w h" by auto
    with task_ok_local [OF ok, of x w' w] Cons.IH show ?case by simp
  qed
  show ?thesis
  proof (rule task_okI)
    fix xs w r w' h
    assume p: "promiseAll f xs w = (r, w')"
    show "cursors w' h = cursors w h" if "h \<notin> set (concat (map H xs))"
      using p that by (rule frame)
    show "closed (cursors w' h)" if "closed (cursors w h)"
      using p that by (rule mono)
    show "\<exists>ys. r = Inr ys"
      if "distinct (concat (map H xs))" "\<forall>h\<in>set (concat (map H xs)). healthy w h"
      using p that by (rule succeeds)
  next
    fix xs w ys w' h
    assume p: "promiseAll f xs w = (Inr ys, w')"
    show "ys = map (g w) xs" using p by (rule result)
    show "\<not> closed (cursors w h) \<and> closed (cursors w' h)" if "h \<in> set (concat (map H xs))"
      using p that by (rule reads)
  next
    fix xs and w w' :: world
    assume "\<forall>h\<in>set (concat (map H xs)). cursors w' h = cursors w h"
    then show "map (g w') xs = map (g w) xs" by (rule local)
  qed
qed


lemma task_ok_normalizeEntry: "task_ok normalizeEntry entryHandles resolveEntry"
proof -
  note arr = task_ok_promiseAll [OF task_ok_normalizeElement]
  show ?thesis
  proof (rule task_okI)
    fix kv w r w' h
    assume f: "normalizeEntry kv w = (r, w')"
    obtain k v where kv: "kv = (k, v)" by (cases kv)
    show "cursors w' h = cursors w h" if "h \<notin> set (entryHandles kv)"
    proof (cases v)
      case (JResultSet c)
      with f kv that readResultSet_frame [of c w _ w'] show ?thesis
        by (auto simp: entryHandles_def split: prod.splits sum.splits)
    next
      case (JArray xs)
      with f kv that task_ok_frame [OF arr, of xs w _ w' h] show ?thesis
        by (auto simp: entryHandles_def split: prod.splits sum.splits)
    qed (use f kv in auto)
    show "closed (cursors w' h)" if "closed (cursors w h)"
    proof (cases v)
      case (JResultSet c)
      with f kv that readResultSet_frame [of c w _ w'] show ?thesis
        by (auto split: prod.splits sum.splits)
    next
      case (JArray xs)
      with f kv that task_ok_closed [OF arr, of xs w _ w' h] show ?thesis
        by (auto split: prod.splits sum.splits)
    qed (use f kv that in auto)
    show "\<exists>y. r = Inr y"
      if "distinct (entryHandles kv)" "\<forall>h\<in>set (entryHandles kv). healthy w h"
    proof (cases v)
      case (JResultSet c)
      with that kv have "healthy w c" by (simp add: entryHandles_def)
      from readResultSet_healthy [OF this] f kv JResultSet show ?thesis by auto
    next
      case (JArray xs)
      obtain rs w1 where p: "promiseAll normalizeElement xs w = (rs, w1)"
        by (cases "promiseAll normalizeElement xs w")
      from task_ok_succeeds [OF arr p] that kv JArray obtain ys where "rs = Inr ys"
        by (auto simp: entryHandles_def)
      with p f kv JArray show ?thesis by auto
    qed (use f kv in auto)
  next
    fix kv w y w' h
    assume f: "normalizeEntry kv w = (Inr y, w')"
    obtain k v where kv: "kv = (k, v)" by (cases kv)
    show "y = resolveEntry w kv"
    proof (cases v)
      case (JResultSet c)
      with f kv readResultSet_success [of c w _ w'] show ?thesis
        by (auto simp: resolveEntry_def split: prod.splits sum.splits)
    next
      case (JArray xs)
      with f kv task_ok_result [OF arr, of xs w _ w'] show ?thesis
        by (auto simp: resolveEntry_def split: prod.splits sum.splits)
    qed (use f kv in \<open>auto simp: resolveEntry_def\<close>)
    show "\<not> closed (cursors w h) \<and> closed (cursors w' h)" if "h \<in> set (entryHandles kv)"
    proof (cases v)
      case (JResultSet c)
      with f kv that readResultSet_success [of c w _ w'] show ?thesis
        by (auto simp: entryHandles_def split: prod.splits sum.splits)
    next
      case (JArray xs)
      with f kv that task_ok_reads [OF arr, of xs w _ w' h] show ?thesis
        by (auto simp: entryHandles_def split: prod.splits sum.splits)
    qed (use kv that in \<open>auto simp: entryHandles_def\<close>)
  next
    fix kv and w w' :: world
    assume same: "\<forall>h\<in>set (entryHandles kv). cursors w' h = cursors w h"
    obtain k v where kv: "kv = (k, v)" by (cases kv)
    show "resolveEntry w' kv = resolveEntry w kv"
    proof (cases v)
      case (JResultSet c)
      with same kv show ?thesis
        by (simp add: resolveEntry_def entryHandles_def fetchedRows_def)
    next
      case (JArray xs)
      with same kv task_ok_local [OF arr, of xs w' w] show ?thesis
        by (simp add: resolveEntry_def entryHandles_def)
    qed (use kv in \<open>auto simp: resolveEntry_def\<close>)
  qed
qed

lemma update_fresh: "k \<notin> fst ` set al \<Longrightarrow> AList.update k v al = al @ [(k, v)]"
  by (induction al) auto

lemma fold_update_distinct:
  "distinct (map fst (acc @ es)) \<Longrightarrow> fold (\<lambda>(k, v). AList.update k v) es acc = acc @ es"
proof (induction es arbitrary: acc)
  case Nil
  then show ?case by simp
next
  case (Cons e es)
  obtain k v where e: "e = (k, v)" by (cases e)
  from Cons.prems e have fresh: "k \<notin> fst ` set acc" by auto
  from Cons.prems e have "distinct (map fst ((acc @ [(k, v)]) @ es))" by auto
  from Cons.IH [OF this] e fresh show ?case by (simp add: update_fresh)
qed

lemma fromEntries_distinct: "distinct (map fst es) \<Longrightarrow> fromEntries es = es"
  using fold_update_distinct [of "[]" es] by (simp add: fromEntries_def)

lemma fold_update_keys:
  "fst ` set (fold (\<lambda>(k, v). AList.update k v) es acc) = fst ` set acc \<union> fst ` set es"
proof (induction es arbitrary: acc)
  case Nil
  then show ?case by simp
next
  case (Cons e es)
  obtain k v where e: "e = (k, v)" by (cases e)
  with Cons.IH [of "AList.update k v acc"] show ?case
    by (auto simp: dom_update)
qed

lemma fromEntries_keys: "fst ` set (fromEntries es) = fst ` set es"
  using fold_update_keys [of es "[]"] by (simp add: fromEntries_def)

lemma resolveEntry_keys: "map fst (map (resolveEntry w) kvs) = map fst kvs"
  by (simp add: resolveEntry_def comp_def)

text \<open>
  C7. \<^verbatim>\<open>normalizeOutBinds\<close> keeps the shape of its argument. An absent
  (\<^verbatim>\<open>undefined\<close>) argument is returned as it is, without error and without touching
  the world. When an array is normalized with success, the result is the array of the
  same length and order in which every cursor is replaced by the rows fetched from it and
  every other element is unchanged. When an object is normalized with success, the
  result is an object with the same key set; its keys being distinct, as those of an
  object are, each key keeps its place and its value is resolved: a cursor becomes its
  fetched rows, an array is resolved element by element, any other value is unchanged.
  Normalization does succeed when the cursors involved are distinct, open and do not
  fail.
\<close>

theorem normalizeOutBinds_keeps_shape:
  "normalizeOutBinds JUndefined w = (Inr JUndefined, w)
   \<and> (normalizeOutBinds (JArray xs) w = (Inr v, w1) \<longrightarrow> v = JArray (map (resolveElement w) xs))
   \<and> (normalizeOutBinds (JObject kvs) w = (Inr v', w2) \<longrightarrow>
        (\<exists>kvs'. v' = JObject kvs' \<and> fst ` set kvs' = fst ` set kvs
           \<and> (distinct (map fst kvs) \<longrightarrow> kvs' = map (resolveEntry w) kvs)))
   \<and> (distinct (concat (map elementHandles xs))
        \<and> (\<forall>h\<in>set (concat (map elementHandles xs)). healthy w h) \<longrightarrow>
        (\<exists>u w'. normalizeOutBinds (JArray xs) w = (Inr u, w')))
   \<and> (distinct (concat (map entryHandles kvs))
        \<and> (\<forall>h\<in>set (concat (map entryHandles kvs)). healthy w h) \<longrightarrow>
        (\<exists>u w'. normalizeOutBinds (JObject kvs) w = (Inr u, w')))"
proof -
  note arr = task_ok_promiseAll [OF task_ok_normalizeElement]
  note obj = task_ok_promiseAll [OF task_ok_normalizeEntry]
  have a: "v = JArray (map (resolveElement w) xs)"
    if "normalizeOutBinds (JArray xs) w = (Inr v, w1)"
  proof -
    from that obtain ys where "promiseAll normalizeElement xs w = (Inr ys, w1)" and "v = JArray ys"
      by (auto split: prod.splits sum.splits)
    with task_ok_result [OF arr, of xs w ys w1] show ?thesis by simp
  qed
  have b: "\<exists>kvs'. v' = JObject kvs' \<and> fst ` set kvs' = fst ` set kvs
           \<and> (distinct (map fst kvs) \<longrightarrow> kvs' = map (resolveEntry w) kvs)"
    if "normalizeOutBinds (JObject kvs) w = (Inr v', w2)"
  proof -
    from that obtain es where p: "promiseAll normalizeEntry kvs w = (Inr es, w2)"
      and v': "v' = JObject (fromEntries es)"
      by (auto split: prod.splits sum.splits)
    from task_ok_result [OF obj p] have es: "es = map (resolveEntry w) kvs" .
    have keys: "map fst es = map fst kvs" unfolding es by (rule resolveEntry_keys)
    then have "fst ` set es = fst ` set kvs" by (metis list.set_map)
    then have "fst ` set (fromEntries es) = fst ` set kvs" by (simp add: fromEntries_keys)
    moreover have "fromEntries es = map (resolveEntry w) kvs" if "distinct (map fst kvs)"
    proof -
      from that keys have "distinct (map fst es)" by simp
      then have "fromEntries es = es" by (rule fromEntries_distinct)
      with es show ?thesis by simp
    qed
    ultimately show ?thesis using v' by blast
  qed
  have c: "\<exists>u w'. normalizeOutBinds (JArray xs) w = (Inr u, w')"
    if "distinct (concat (map elementHandles xs))"
      "\<forall>h\<in>set (concat (map elementHandles xs)). healthy w h"
  proof -
    obtain rs w' where p: "promiseAll normalizeElement xs w = (rs, w')"
      by (cases "promiseAll normalizeElement xs w")
    from task_ok_succeeds [OF arr p that] obtain ys where "rs = Inr ys" ..
    with p show ?thesis by simp
  qed
  have d: "\<exists>u w'. normalizeOutBinds (JObject kvs) w = (Inr u, w')"
    if "distinct (concat (map entryHandles kvs))"
      "\<forall>h\<in>set (concat (map entryHandles kvs)). healthy w h"
  proof -
    obtain rs w' where p: "promiseAll normalizeEntry kvs w = (rs, w')"
      by (cases "promiseAll normalizeEntry kvs w")
    from task_ok_succeeds [OF obj p that] obtain ys where "rs = Inr ys" ..
    with p show ?thesis by simp
  qed
  from a b c d show ?thesis by simp
qed


theorem normalizeOutBinds_keeps_shape_witness:
  "fst (normalizeOutBinds
          (JObject [(''result'', JResultSet 0), (''n'', JNumber (Finite 5)),
                    (''out'', JArray [JResultSet 1, JString ''x'', JResultSet 2])])
          sampleWorld)
     = Inr (JObject [(''result'', JArray [sampleRow]), (''n'', JNumber (Finite 5)),
                     (''out'', JArray [JArray [sampleRow], JString ''x'', JArray [sampleRow]])])
   \<and> fst (normalizeOutBinds (JArray [JResultSet 1, JString ''x'', JResultSet 2]) sampleWorld)
     = Inr (JArray [JArray [sampleRow], JString ''x'', JArray [sampleRow]])
   \<and> fst (normalizeOutBinds JUndefined sampleWorld) = Inr JUndefined"
proof -
  let ?xs = "[JResultSet 1, JString ''x'', JResultSet 2]"
  let ?kvs = "[(''result'', JResultSet 0), (''n'', JNumber (Finite 5)), (''out'', JArray ?xs)]"
  have keys: "distinct (map fst ?kvs)" by simp
  have hs: "distinct (concat (map entryHandles ?kvs))"
    "distinct (concat (map elementHandles ?xs))"
    by (simp_all add: entryHandles_def)
  have ok: "healthy sampleWorld h" for h
    by (simp add: healthy_def sampleWorld_def)
  from normalizeOutBinds_keeps_shape [of sampleWorld ?xs
      "projr (fst (normalizeOutBinds (JArray ?xs) sampleWorld))"
      "snd (normalizeOutBinds (JArray ?xs) sampleWorld)"
      ?kvs
      "projr (fst (normalizeOutBinds (JObject ?kvs) sampleWorld))"
      "snd (normalizeOutBinds (JObject ?kvs) sampleWorld)"]
    keys hs ok
  show ?thesis
    by (auto simp: resolveEntry_def fetchedRows_def sampleWorld_def)
qed

subsection \<open>Expanding an IN list\<close>

lemma namesFrom_Suc:
  "namesFrom rt item n (Suc m) = (name item @ uniqueId rt n) # namesFrom rt item (Suc n) m"
  by (simp add: namesFrom_def upt_conv_Cons del: upt_Suc)

lemma forEachVal_eq:
  "forEachVal rt item vs (result, g, n)
     = (fold (\<lambda>(k, b). assign k b)
          (zip (namesFrom rt item n (length vs)) (map (generatedBind rt item) vs)) result,
        g @ concat (map (\<lambda>k. '':'' @ k @ '','') (namesFrom rt item n (length vs))),
        n + length vs)"
proof (induction vs arbitrary: result g n)
  case Nil
  then show ?case by (simp add: namesFrom_def)
next
  case (Cons v vs)
  show ?case
    by (simp add: Let_def Cons.IH namesFrom_Suc uniqueId_def generatedBind_def)
qed

lemma fold_assign_other:
  "k \<notin> fst ` set kbs \<Longrightarrow> map_of (fold (\<lambda>(k, b). assign k b) kbs r) k = map_of r k"
  by (induction kbs arbitrary: r) (auto simp: map_of_assign)


lemma distinct_fold_assign:
  "distinct (map fst r) \<Longrightarrow> distinct (map fst (fold (\<lambda>(k, b). assign k b) kbs r))"
  by (induction kbs arbitrary: r) (auto simp: distinct_assign)

lemma concat_placeholders:
  "ks \<noteq> [] \<Longrightarrow>
     concat (map (\<lambda>k. '':'' @ k @ '','') ks) = joinWith '','' (map (\<lambda>k. '':'' @ k) ks) @ '',''"
proof (induction ks)
  case Nil
  then show ?case by simp
next
  case (Cons k ks)
  then show ?case by (cases ks) auto
qed



















lemma length_generatedNames: "length (generatedNames rt item n) = length (valList item)"
  by (simp add: generatedNames_def namesFrom_def)




lemma compileParam_expanding:
  assumes "parseInStatement item" and "direction item = DirIn" and "dataType item \<noteq> TCursor"
    and "valList item \<noteq> []"
  shows "compileParam rt item (query, result, n)
           = Inr (replaceAll query ('':'' @ name item)
                    (''('' @ joinWith '','' (map (\<lambda>k. '':'' @ k) (generatedNames rt item n)) @ '')''),
                  fold (\<lambda>(k, b). assign k b)
                    (zip (generatedNames rt item n) (map (generatedBind rt item) (valList item)))
                    result,
                  n + length (valList item))"
proof -
  from assms(4) have "generatedNames rt item n \<noteq> []"
    using length_generatedNames [of rt item n] by auto
  from concat_placeholders [OF this]
  have "butlast (''('' @ concat (map (\<lambda>k. '':'' @ k @ '','') (generatedNames rt item n)))
          = ''('' @ joinWith '','' (map (\<lambda>k. '':'' @ k) (generatedNames rt item n))"
    by (simp add: butlast_append)
  with assms show ?thesis
    by (simp add: compileParam_def forEachVal_eq generatedNames_def)
qed








subsection \<open>Values that do not parse\<close>

text \<open>
  C6, as stated, fails: the text \<^verbatim>\<open>abc\<close> is no numeric literal, and the IN parameter of
  datatype number holding it compiles, without error, to a bind with the value NaN.
\<close>

theorem unparsable_value_counterexample:
  "toNumber ''abc'' = NaN
   \<and> compileBinds sampleRuntime ''SELECT :n FROM dual'' [sampleText]
     = Inr (''SELECT :n FROM dual'',
            [(''n'', \<lparr>dir = BIND_IN, dbType = DB_NUMBER, val = Some (JNumber NaN),
                      outMaxSize = None\<rparr>)])"
  by (simp add: compileBinds_def compileParam_def assign_def sampleText_def coerceVal_def valueText_def
      toNumber_def trim_def isWhiteSpace_def nonDecimalIntegerLiteral_def strDecimalLiteral_def
      unsignedDecimal_def isDecimalDigit_def charCode_def)

lemma execute_compiled:
  assumes "compileBinds rt q params = Inr (sql, bs)"
  shows "statements (snd (execute rt conn q params w)) = statements w @ [ConnExecute sql bs]"
    and "fst (execute rt conn q params w)
           = (case conn_execute conn sql bs of
                Inl msg \<Rightarrow> Inl (NodeOperationError msg)
              | Inr r \<Rightarrow>
                  Inr (JObject
                    [(''metaData'', metaData r), (''rows'', rows r),
                     (''rowsAffected'', rowsAffected r), (''lastRowid'', lastRowid r),
                     (''outBinds'', outBinds r)]))"
proof -
  show "statements (snd (execute rt conn q params w)) = statements w @ [ConnExecute sql bs]"
  proof (cases "conn_execute conn sql bs")
    case (Inl msg)
    with assms have "snd (execute rt conn q params w)
                       = finallyBlock conn (emit (ConnExecute sql bs) w)"
      by (simp add: execute_def tryBlock_def)
    then show ?thesis by (simp add: statements_finallyBlock) (simp add: statements_def emit_def)
  next
    case (Inr r)
    with assms have "snd (execute rt conn q params w)
                       = finallyBlock conn (emit (ConnExecute sql bs) w)"
      by (simp add: execute_def tryBlock_def)
    then show ?thesis by (simp add: statements_finallyBlock) (simp add: statements_def emit_def)
  qed
  from assms show "fst (execute rt conn q params w)
           = (case conn_execute conn sql bs of
                Inl msg \<Rightarrow> Inl (NodeOperationError msg)
              | Inr r \<Rightarrow>
                  Inr (JObject
                    [(''metaData'', metaData r), (''rows'', rows r),
                     (''rowsAffected'', rowsAffected r), (''lastRowid'', lastRowid r),
                     (''outBinds'', outBinds r)]))"
    by (cases "conn_execute conn sql bs") (simp_all add: execute_def tryBlock_def)
qed

text \<open>
  C6, amended. Bind compilation never fails because of the text of a value. An IN or
  INOUT descriptor of datatype number or date that passes the direction, datatype and
  empty-list guards compiles, whatever its text. A plain descriptor is assigned one bind
  under its name, holding \<^verbatim>\<open>Number(text)\<close> or \<^verbatim>\<open>new Date(text)\<close> of its whole value; an
  expanding one is assigned, under each generated name in turn, an IN bind holding
  \<^verbatim>\<open>Number(token)\<close> or \<^verbatim>\<open>new Date(token)\<close> of that token. These are NaN and the Invalid
  Date when the text does not parse. With this one descriptor, \<open>execute\<close> hands the
  finalized SQL and exactly these binds to \<^verbatim>\<open>connection.execute\<close>, once, and its outcome is
  the outcome of that call: the record of its result, or its error.
\<close>

theorem unparsable_value_compiles:
  assumes "direction item = DirIn \<or> direction item = DirInOut"
    and "dataType item = TNumber \<or> dataType item = TDate"
    and "parseInStatement item \<longrightarrow> direction item = DirIn \<and> valList item \<noteq> []"
  shows "\<exists>sql bs. compileBinds rt q [item] = Inr (sql, bs)
           \<and> sql = (if parseInStatement item
                    then replaceAll q ('':'' @ name item)
                           (''('' @ joinWith '','' (map (\<lambda>k. '':'' @ k) (generatedNames rt item 0))
                            @ '')'')
                    else q)
           \<and> bs = (if parseInStatement item
                   then fold (\<lambda>(k, b). assign k b)
                          (zip (generatedNames rt item 0)
                             (map (\<lambda>v. \<lparr>dir = BIND_IN, dbType = mapDatatype (dataType item),
                                         val = Some (if dataType item = TNumber
                                                     then JNumber (toNumber v)
                                                     else JDate (parseDate rt v)),
                                         outMaxSize = None\<rparr>)
                                (valList item)))
                          []
                   else assign (name item)
                          \<lparr>dir = (if direction item = DirIn then BIND_IN else BIND_INOUT),
                           dbType = mapDatatype (dataType item),
                           val = Some (if dataType item = TNumber
                                       then JNumber (toNumber (valueText (rawValue item)))
                                       else JDate (parseDate rt (valueText (rawValue item)))),
                           outMaxSize = None\<rparr>
                          [])
           \<and> (\<forall>kb\<in>set bs. \<exists>v. val (snd kb)
                 = Some (if dataType item = TNumber then JNumber (toNumber v)
                         else JDate (parseDate rt v)))
           \<and> statements (snd (execute rt conn q [item] w)) = statements w @ [ConnExecute sql bs]
           \<and> fst (execute rt conn q [item] w)
               = (case conn_execute conn sql bs of
                    Inl msg \<Rightarrow> Inl (NodeOperationError msg)
                  | Inr r \<Rightarrow>
                      Inr (JObject
                        [(''metaData'', metaData r), (''rows'', rows r),
                         (''rowsAffected'', rowsAffected r), (''lastRowid'', lastRowid r),
                         (''outBinds'', outBinds r)]))"
proof -
  from assms have acc: "\<not> rejected item" by (auto simp: rejected_def)
  from compileParam_accepted [OF acc, of rt "(q, [], 0)"] obtain sql bs n
    where st: "compileParam rt item (q, [], 0) = Inr (sql, bs, n)"
    by (metis prod_cases3)
  then have c: "compileBinds rt q [item] = Inr (sql, bs)"
    by (simp add: compileBinds_def)
  have vals: "\<exists>v. val (snd kb) = Some (if dataType item = TNumber then JNumber (toNumber v)
                         else JDate (parseDate rt v))" if "kb \<in> set bs" for kb
    using compileParam_new_binds [OF st that] assms(1,2)
    by (auto simp: plainBind_def coerceVal_def)
  have coerce: "coerceVal rt v (dataType item)
                  = (if dataType item = TNumber then JNumber (toNumber v)
                     else JDate (parseDate rt v))" for v
    using assms(2) by (auto simp: coerceVal_def)
  have plain: "sql = q \<and>
               bs = assign (name item)
                      \<lparr>dir = (if direction item = DirIn then BIND_IN else BIND_INOUT),
                       dbType = mapDatatype (dataType item),
                       val = Some (if dataType item = TNumber
                                   then JNumber (toNumber (valueText (rawValue item)))
                                   else JDate (parseDate rt (valueText (rawValue item)))),
                       outMaxSize = None\<rparr>
                      []" if "\<not> parseInStatement item"
  proof -
    from assms(1,2) have "plainBind rt item
        = \<lparr>dir = (if direction item = DirIn then BIND_IN else BIND_INOUT),
           dbType = mapDatatype (dataType item),
           val = Some (if dataType item = TNumber
                       then JNumber (toNumber (valueText (rawValue item)))
                       else JDate (parseDate rt (valueText (rawValue item)))),
           outMaxSize = None\<rparr>"
      by (auto simp: plainBind_def coerceVal_def)
    with compileBinds_plain [OF that acc, of rt q] c show ?thesis by simp
  qed
  have expanding: "sql = replaceAll q ('':'' @ name item)
                           (''('' @ joinWith '','' (map (\<lambda>k. '':'' @ k) (generatedNames rt item 0))
                            @ '')'')
                   \<and> bs = fold (\<lambda>(k, b). assign k b)
                          (zip (generatedNames rt item 0)
                             (map (\<lambda>v. \<lparr>dir = BIND_IN, dbType = mapDatatype (dataType item),
                                         val = Some (if dataType item = TNumber
                                                     then JNumber (toNumber v)
                                                     else JDate (parseDate rt v)),
                                         outMaxSize = None\<rparr>)
                                (valList item)))
                          []" if "parseInStatement item"
  proof -
    from that assms(2,3) have "direction item = DirIn" and "dataType item \<noteq> TCursor"
      and "valList item \<noteq> []" by auto
    from compileParam_expanding [OF that this, of rt q "[]" 0] st
    have "sql = replaceAll q ('':'' @ name item)
                  (''('' @ joinWith '','' (map (\<lambda>k. '':'' @ k) (generatedNames rt item 0)) @ '')'')"
      and "bs = fold (\<lambda>(k, b). assign k b)
                  (zip (generatedNames rt item 0) (map (generatedBind rt item) (valList item))) []"
      by simp_all
    moreover have "generatedBind rt item
        = (\<lambda>v. \<lparr>dir = BIND_IN, dbType = mapDatatype (dataType item),
                  val = Some (if dataType item = TNumber then JNumber (toNumber v)
                              else JDate (parseDate rt v)),
                  outMaxSize = None\<rparr>)"
      by (rule ext) (simp add: generatedBind_def coerce)
    ultimately show ?thesis by simp
  qed
  note ex = execute_compiled [OF c, of conn w]
  show ?thesis
  proof (intro exI [of _ sql] exI [of _ bs] conjI)
    show "compileBinds rt q [item] = Inr (sql, bs)" by (rule c)
    show "sql = (if parseInStatement item
                 then replaceAll q ('':'' @ name item)
                        (''('' @ joinWith '','' (map (\<lambda>k. '':'' @ k) (generatedNames rt item 0))
                         @ '')'')
                 else q)"
    proof (cases "parseInStatement item")
      case True
      from expanding [OF True] True show ?thesis by (simp only: if_True)
    next
      case False
      from plain [OF False] False show ?thesis by (simp only: if_False)
    qed
    show "bs = (if parseInStatement item
                then fold (\<lambda>(k, b). assign k b)
                       (zip (generatedNames rt item 0)
                          (map (\<lambda>v. \<lparr>dir = BIND_IN, dbType = mapDatatype (dataType item),
                                      val = Some (if dataType item = TNumber
                                                  then JNumber (toNumber v)
                                                  else JDate (parseDate rt v)),
                                      outMaxSize = None\<rparr>)
                             (valList item)))
                       []
                else assign (name item)
                       \<lparr>dir = (if direction item = DirIn then BIND_IN else BIND_INOUT),
                        dbType = mapDatatype (dataType item),
                        val = Some (if dataType item = TNumber
                                    then JNumber (toNumber (valueText (rawValue item)))
                                    else JDate (parseDate rt (valueText (rawValue item)))),
                        outMaxSize = None\<rparr>
                       [])"
    proof (cases "parseInStatement item")
      case True
      from expanding [OF True] True show ?thesis by (simp only: if_True)
    next
      case False
      from plain [OF False] False show ?thesis by (simp only: if_False)
    qed
    show "\<forall>kb\<in>set bs. \<exists>v. val (snd kb)
            = Some (if dataType item = TNumber then JNumber (toNumber v)
                    else JDate (parseDate rt v))"
      using vals by blast
    show "statements (snd (execute rt conn q [item] w)) = statements w @ [ConnExecute sql bs]"
      by (rule ex(1))
    show "fst (execute rt conn q [item] w)
            = (case conn_execute conn sql bs of
                 Inl msg \<Rightarrow> Inl (NodeOperationError msg)
               | Inr r \<Rightarrow>
                   Inr (JObject
                     [(''metaData'', metaData r), (''rows'', rows r),
                      (''rowsAffected'', rowsAffected r), (''lastRowid'', lastRowid r),
                      (''outBinds'', outBinds r)]))"
      by (rule ex(2))
  qed
qed

theorem unparsable_value_compiles_witness:
  "compileBinds sampleRuntime ''SELECT :n FROM dual''
     [sampleText\<lparr>rawValue := Some ''yesterday'', dataType := TDate, direction := DirInOut\<rparr>]
   = Inr (''SELECT :n FROM dual'',
          [(''n'', \<lparr>dir = BIND_INOUT, dbType = DB_DATE, val = Some (JDate None),
                    outMaxSize = None\<rparr>)])
   \<and> statements (snd (execute sampleRuntime sampleConnection ''SELECT :n FROM dual''
        [sampleText\<lparr>rawValue := Some ''yesterday'', dataType := TDate, direction := DirInOut\<rparr>]
        sampleWorld))
     = [ConnExecute ''SELECT :n FROM dual''
          [(''n'', \<lparr>dir = BIND_INOUT, dbType = DB_DATE, val = Some (JDate None),
                    outMaxSize = None\<rparr>)]]
   \<and> statements (snd (execute sampleRuntime sampleConnection ''SELECT 1 FROM t WHERE n IN :ids''
        [sampleIds\<lparr>rawValue := Some ''1, x''\<rparr>] sampleWorld))
     = [ConnExecute
          ''SELECT 1 FROM t WHERE n IN (:ids3b241101_e2bb_4255_8caf_4136c566a962,:ids9f1c2d3e_4a5b_4c6d_8e7f_0a1b2c3d4e5f)''
          [(''ids3b241101_e2bb_4255_8caf_4136c566a962'',
            \<lparr>dir = BIND_IN, dbType = DB_NUMBER, val = Some (JNumber (Finite 1)),
             outMaxSize = None\<rparr>),
           (''ids9f1c2d3e_4a5b_4c6d_8e7f_0a1b2c3d4e5f'',
            \<lparr>dir = BIND_IN, dbType = DB_NUMBER, val = Some (JNumber NaN), outMaxSize = None\<rparr>)]]"
proof -
  let ?p = "sampleText\<lparr>rawValue := Some ''yesterday'', dataType := TDate, direction := DirInOut\<rparr>"
  let ?e = "sampleIds\<lparr>rawValue := Some ''1, x''\<rparr>"
  have h1: "direction ?p = DirIn \<or> direction ?p = DirInOut" by simp
  have h2: "dataType ?p = TNumber \<or> dataType ?p = TDate" by simp
  have h3: "parseInStatement ?p \<longrightarrow> direction ?p = DirIn \<and> valList ?p \<noteq> []"
    by (simp add: sampleText_def)
  have e1: "direction ?e = DirIn \<or> direction ?e = DirInOut" by (simp add: sampleIds_def)
  have e2: "dataType ?e = TNumber \<or> dataType ?e = TDate" by (simp add: sampleIds_def)
  have "valList ?e = [''1'', ''x'']" by code_simp
  then have e3: "parseInStatement ?e \<longrightarrow> direction ?e = DirIn \<and> valList ?e \<noteq> []"
    by (simp add: sampleIds_def)
  have none: "statements sampleWorld = []" by (simp add: statements_def sampleWorld_def)
  have plain: "compileBinds sampleRuntime ''SELECT :n FROM dual'' [?p]
     = Inr (''SELECT :n FROM dual'',
          [(''n'', \<lparr>dir = BIND_INOUT, dbType = DB_DATE, val = Some (JDate None),
                    outMaxSize = None\<rparr>)])"
    by code_simp
  have expanding: "compileBinds sampleRuntime ''SELECT 1 FROM t WHERE n IN :ids'' [?e]
     = Inr (''SELECT 1 FROM t WHERE n IN (:ids3b241101_e2bb_4255_8caf_4136c566a962,:ids9f1c2d3e_4a5b_4c6d_8e7f_0a1b2c3d4e5f)'',
          [(''ids3b241101_e2bb_4255_8caf_4136c566a962'',
            \<lparr>dir = BIND_IN, dbType = DB_NUMBER, val = Some (JNumber (Finite 1)),
             outMaxSize = None\<rparr>),
           (''ids9f1c2d3e_4a5b_4c6d_8e7f_0a1b2c3d4e5f'',
            \<lparr>dir = BIND_IN, dbType = DB_NUMBER, val = Some (JNumber NaN), outMaxSize = None\<rparr>)])"
    by code_simp
  from unparsable_value_compiles [OF h1 h2 h3, of sampleRuntime "''SELECT :n FROM dual''"
      sampleConnection sampleWorld] plain none
  have a: "statements (snd (execute sampleRuntime sampleConnection ''SELECT :n FROM dual'' [?p]
        sampleWorld))
     = [ConnExecute ''SELECT :n FROM dual''
          [(''n'', \<lparr>dir = BIND_INOUT, dbType = DB_DATE, val = Some (JDate None),
                    outMaxSize = None\<rparr>)]]"
    by auto
  from unparsable_value_compiles [OF e1 e2 e3, of sampleRuntime
      "''SELECT 1 FROM t WHERE n IN :ids''" sampleConnection sampleWorld] expanding none
  have b: "statements (snd (execute sampleRuntime sampleConnection
        ''SELECT 1 FROM t WHERE n IN :ids'' [?e] sampleWorld))
     = [ConnExecute
          ''SELECT 1 FROM t WHERE n IN (:ids3b241101_e2bb_4255_8caf_4136c566a962,:ids9f1c2d3e_4a5b_4c6d_8e7f_0a1b2c3d4e5f)''
          [(''ids3b241101_e2bb_4255_8caf_4136c566a962'',
            \<lparr>dir = BIND_IN, dbType = DB_NUMBER, val = Some (JNumber (Finite 1)),
             outMaxSize = None\<rparr>),
           (''ids9f1c2d3e_4a5b_4c6d_8e7f_0a1b2c3d4e5f'',
            \<lparr>dir = BIND_IN, dbType = DB_NUMBER, val = Some (JNumber NaN), outMaxSize = None\<rparr>)]]"
    by auto
  from plain a b show ?thesis by simp
qed

subsection \<open>Two descriptors with one name\<close>

lemma reduceParams_append:
  "reduceParams rt (xs @ ys) st
     = (case reduceParams rt xs st of Inl e \<Rightarrow> Inl e | Inr st' \<Rightarrow> reduceParams rt ys st')"
  by (induction xs arbitrary: st) (auto split: sum.splits)

lemma reduceParams_accepted:
  "\<forall>d\<in>set ds. \<not> rejected d \<Longrightarrow> \<exists>st'. reduceParams rt ds st = Inr st'"
proof (induction ds arbitrary: st)
  case Nil
  have "reduceParams rt [] st = Inr st" by simp
  then show ?case ..
next
  case (Cons d ds)
  from Cons.prems have "\<not> rejected d" by simp
  then have "\<exists>st1. compileParam rt d st = Inr st1" by (rule compileParam_accepted)
  then obtain st1 where step: "compileParam rt d st = Inr st1" ..
  from Cons.prems have "\<forall>d\<in>set ds. \<not> rejected d" by simp
  from Cons.IH [OF this, of st1] obtain st2 where "reduceParams rt ds st1 = Inr st2" ..
  with step have "reduceParams rt (d # ds) st = Inr st2" by simp
  then show ?case ..
qed

lemma compileBinds_single:
  "(\<exists>res. compileBinds rt q [d] = Inr res) = (\<not> rejected d)"
proof
  assume "\<exists>res. compileBinds rt q [d] = Inr res"
  then show "\<not> rejected d"
    using compileBinds_rejected [of d "[d]" rt q] by auto
next
  assume "\<not> rejected d"
  from compileParam_accepted [OF this, of rt "(q, [], 0)"] show "\<exists>res. compileBinds rt q [d] = Inr res"
    by (auto simp: compileBinds_def split: prod.splits)
qed

lemma forEachVal_distinct:
  assumes "forEachVal rt item vs (result, g, n) = (result', g', n')"
    and "distinct (map fst result)"
  shows "distinct (map fst result')"
  using assms
proof (induction vs arbitrary: result g n)
  case Nil
  then show ?case by simp
next
  case (Cons v vs)
  from Cons.prems Cons.IH show ?case
    by (auto simp: Let_def distinct_assign)
qed

lemma compileParam_distinct:
  assumes "compileParam rt item (q, r, n) = Inr (q', r', n')" and "distinct (map fst r)"
  shows "distinct (map fst r')"
proof (cases "parseInStatement item")
  case True
  with assms(1) obtain g where
    "forEachVal rt item (valList item) (r, ''('', n) = (r', g, n')"
    by (auto simp: compileParam_def split: if_splits prod.splits)
  from forEachVal_distinct [OF this assms(2)] show ?thesis .
next
  case False
  from compileParam_plain [OF False compileParam_Inr_accepted [OF assms(1)], of rt q r n] assms
  show ?thesis by (auto simp: distinct_assign)
qed

lemma compileParam_assigned:
  assumes "compileParam rt item (q, r, n) = Inr (q', r', n')"
  shows "n' = n + draws item"
    and "k \<notin> set (assigned rt item n) \<Longrightarrow> map_of r' k = map_of r k"
proof -
  have acc: "\<not> rejected item" using assms by (rule compileParam_Inr_accepted)
  have "n' = n + draws item
        \<and> (k \<notin> set (assigned rt item n) \<longrightarrow> map_of r' k = map_of r k)"
  proof (cases "parseInStatement item")
    case True
    let ?names = "generatedNames rt item n"
    let ?binds = "map (generatedBind rt item) (valList item)"
    from True acc have "direction item = DirIn" and "dataType item \<noteq> TCursor"
      and "valList item \<noteq> []"
      by (simp_all add: rejected_def)
    from compileParam_expanding [OF True this, of rt q r n] assms
    have r': "r' = fold (\<lambda>(k, b). assign k b) (zip ?names ?binds) r"
      and n': "n' = n + length (valList item)"
      by simp_all
    have "map fst (zip ?names ?binds) = ?names"
      by (simp add: map_fst_zip length_generatedNames)
    then have "k \<notin> fst ` set (zip ?names ?binds)" if "k \<notin> set ?names"
      using that by (metis list.set_map)
    from fold_assign_other [OF this, of r] r' n' True show ?thesis
      by (simp add: assigned_def draws_def)
  next
    case False
    from compileParam_plain [OF False acc, of rt q r n] assms
    have "r' = assign (name item) (plainBind rt item) r" and "n' = n" by simp_all
    with False show ?thesis by (simp add: assigned_def draws_def map_of_assign)
  qed
  then show "n' = n + draws item"
    and "k \<notin> set (assigned rt item n) \<Longrightarrow> map_of r' k = map_of r k"
    by simp_all
qed

lemma reduceParams_distinct:
  assumes "reduceParams rt ds (q, r, n) = Inr (q', r', n')" and "distinct (map fst r)"
  shows "distinct (map fst r')"
  using assms
proof (induction ds arbitrary: q r n)
  case Nil
  then show ?case by simp
next
  case (Cons d ds)
  from Cons.prems(1) obtain q1 r1 n1 where
    step: "compileParam rt d (q, r, n) = Inr (q1, r1, n1)" and
    rest: "reduceParams rt ds (q1, r1, n1) = Inr (q', r', n')"
    by (cases "compileParam rt d (q, r, n)") auto
  from Cons.IH [OF rest compileParam_distinct [OF step Cons.prems(2)]] show ?case .
qed

lemma reduceParams_drawn:
  assumes "reduceParams rt ds (q, r, n) = Inr (q', r', n')"
  shows "n' = n + sum_list (map draws ds)"
  using assms
proof (induction ds arbitrary: q r n)
  case Nil
  then show ?case by simp
next
  case (Cons d ds)
  from Cons.prems(1) obtain q1 r1 n1 where
    step: "compileParam rt d (q, r, n) = Inr (q1, r1, n1)" and
    rest: "reduceParams rt ds (q1, r1, n1) = Inr (q', r', n')"
    by (cases "compileParam rt d (q, r, n)") auto
  from Cons.IH [OF rest] compileParam_assigned(1) [OF step] show ?case by simp
qed

lemma reduceParams_frame:
  assumes "reduceParams rt ds (q, r, n) = Inr (q', r', n')"
    and "k \<notin> set (assignedFrom rt ds n)"
  shows "map_of r' k = map_of r k"
  using assms
proof (induction ds arbitrary: q r n)
  case Nil
  then show ?case by simp
next
  case (Cons d ds)
  from Cons.prems(1) obtain q1 r1 n1 where
    step: "compileParam rt d (q, r, n) = Inr (q1, r1, n1)" and
    rest: "reduceParams rt ds (q1, r1, n1) = Inr (q', r', n')"
    by (cases "compileParam rt d (q, r, n)") auto
  from compileParam_assigned(1) [OF step] have n1: "n1 = n + draws d" .
  from Cons.prems(2) have here: "k \<notin> set (assigned rt d n)"
    and later: "k \<notin> set (assignedFrom rt ds n1)"
    by (simp_all add: n1)
  from Cons.IH [OF rest later] compileParam_assigned(2) [OF step here] show ?case by simp
qed

lemma fold_assign_proto:
  "map_of (fold (\<lambda>(k, b). assign k b) kbs r) ''__proto__'' = map_of r ''__proto__''"
  by (induction kbs arbitrary: r) (auto simp: map_of_assign)

lemma compileParam_proto:
  assumes "compileParam rt item (q, r, n) = Inr (q', r', n')"
  shows "map_of r' ''__proto__'' = map_of r ''__proto__''"
proof (cases "parseInStatement item")
  case True
  have "\<not> rejected item" using assms by (rule compileParam_Inr_accepted)
  with True have "direction item = DirIn" and "dataType item \<noteq> TCursor"
    and "valList item \<noteq> []"
    by (simp_all add: rejected_def)
  from compileParam_expanding [OF True this, of rt q r n] assms
  have "r' = fold (\<lambda>(k, b). assign k b)
               (zip (generatedNames rt item n) (map (generatedBind rt item) (valList item))) r"
    by simp
  then show ?thesis by (simp only: fold_assign_proto)
next
  case False
  from compileParam_plain [OF False compileParam_Inr_accepted [OF assms], of rt q r n] assms
  show ?thesis by (auto simp: map_of_assign)
qed

lemma reduceParams_proto:
  assumes "reduceParams rt ds (q, r, n) = Inr (q', r', n')"
  shows "map_of r' ''__proto__'' = map_of r ''__proto__''"
  using assms
proof (induction ds arbitrary: q r n)
  case Nil
  then show ?case by simp
next
  case (Cons d ds)
  from Cons.prems(1) obtain q1 r1 n1 where
    step: "compileParam rt d (q, r, n) = Inr (q1, r1, n1)" and
    rest: "reduceParams rt ds (q1, r1, n1) = Inr (q', r', n')"
    by (cases "compileParam rt d (q, r, n)") auto
  from Cons.IH [OF rest] compileParam_proto [OF step] show ?case by simp
qed

lemma compileBinds_proto:
  assumes "compileBinds rt q params = Inr (sql, bs)"
  shows "map_of bs ''__proto__'' = None"
proof -
  from assms obtain n where "reduceParams rt params (q, [], 0) = Inr (sql, bs, n)"
    by (auto simp: compileBinds_def split: sum.splits)
  from reduceParams_proto [OF this] show ?thesis by simp
qed

lemma single_entry:
  assumes "distinct (map fst bs)" and "map_of bs k = Some b"
  shows "filter (\<lambda>kb. fst kb = k) bs = [(k, b)]"
  using assms
proof (induction bs)
  case Nil
  then show ?case by simp
next
  case (Cons x xs)
  show ?case
  proof (cases "fst x = k")
    case True
    with Cons.prems have "x = (k, b)" by (cases x) auto
    moreover from True Cons.prems(1) have "filter (\<lambda>kb. fst kb = k) xs = []"
      by (auto simp: filter_empty_conv image_iff)
    ultimately show ?thesis by simp
  next
    case False
    with Cons show ?thesis by (cases x) auto
  qed
qed

text \<open>
  C10, as stated, fails for the name \<^verbatim>\<open>__proto__\<close>: two plain descriptors of that name
  compile without error, and the bind mapping has no entry for the name (nor any other).
\<close>

theorem proto_name_counterexample:
  "name (sampleText\<lparr>name := ''__proto__''\<rparr>) = name (sampleOut\<lparr>name := ''__proto__''\<rparr>)
   \<and> compileBinds sampleRuntime ''BEGIN p(:__proto__); END;''
       [sampleText\<lparr>name := ''__proto__''\<rparr>, sampleOut\<lparr>name := ''__proto__''\<rparr>]
     = Inr (''BEGIN p(:__proto__); END;'', [])
   \<and> filter (\<lambda>kb. fst kb = ''__proto__'') ([] :: binds) = []"
  by (simp add: compileBinds_def compileParam_def assign_def sampleText_def sampleOut_def)

text \<open>
  C10, amended. Let two plain (not expanding) descriptors of one parameter list share a
  name other than \<^verbatim>\<open>__proto__\<close>, every descriptor of the list being one that compiles as a
  list of its own, and no descriptor behind the later of the two assigning that name
  (the names a descriptor assigns are its own name when it is plain, and the names
  generated for its tokens when it expands). Then bind compilation succeeds, and the
  bind mapping has exactly one entry for the name: the bind that the later descriptor
  compiles to. The earlier one is overwritten without any error. Under the name
  \<^verbatim>\<open>__proto__\<close> no bind mapping that the compiler returns has an entry.
\<close>

theorem later_descriptor_overwrites:
  assumes "params = before @ d1 # between @ d2 # after"
    and "name d1 = name d2" and "\<not> parseInStatement d1" and "\<not> parseInStatement d2"
    and "name d2 \<noteq> ''__proto__''"
    and "\<forall>d\<in>set params. \<exists>res. compileBinds rt q [d] = Inr res"
    and "name d2
           \<notin> set (assignedFrom rt after (sum_list (map draws (before @ d1 # between @ [d2]))))"
  shows "(\<exists>sql bs b.
            compileBinds rt q params = Inr (sql, bs)
            \<and> compileBinds rt q [d2] = Inr (q, [(name d2, b)])
            \<and> map_of bs (name d2) = Some b
            \<and> filter (\<lambda>kb. fst kb = name d2) bs = [(name d2, b)])
         \<and> (\<forall>q' params' sql' bs'.
               compileBinds rt q' params' = Inr (sql', bs') \<longrightarrow>
               map_of bs' ''__proto__'' = None
               \<and> filter (\<lambda>kb. fst kb = ''__proto__'') bs' = [])"
proof -
  from assms(6) have acc: "\<forall>d\<in>set params. \<not> rejected d"
    using compileBinds_single by blast
  from reduceParams_accepted [OF acc, of rt "(q, [], 0)"] obtain sql bs n
    where all: "reduceParams rt params (q, [], 0) = Inr (sql, bs, n)"
    by (metis prod_cases3)
  then have c: "compileBinds rt q params = Inr (sql, bs)"
    by (simp add: compileBinds_def)
  define earlier where "earlier = before @ d1 # between"
  have split: "params = earlier @ d2 # after"
    using assms(1) by (simp add: earlier_def)
  from all [unfolded split reduceParams_append] obtain q1 r1 n1 where
    first: "reduceParams rt earlier (q, [], 0) = Inr (q1, r1, n1)" and
    rest: "reduceParams rt (d2 # after) (q1, r1, n1) = Inr (sql, bs, n)"
    by (cases "reduceParams rt earlier (q, [], 0)") auto
  from acc assms(1) have acc2: "\<not> rejected d2" by simp
  from rest compileParam_plain [OF assms(4) acc2, of rt q1 r1 n1]
  have tail: "reduceParams rt after (q1, assign (name d2) (plainBind rt d2) r1, n1)
                = Inr (sql, bs, n)"
    by simp
  from reduceParams_drawn [OF first] assms(4)
  have "sum_list (map draws (before @ d1 # between @ [d2])) = n1"
    by (simp add: earlier_def draws_def)
  with assms(7) have "name d2 \<notin> set (assignedFrom rt after n1)" by simp
  from reduceParams_frame [OF tail this] assms(5)
  have look: "map_of bs (name d2) = Some (plainBind rt d2)"
    by (simp add: map_of_assign)
  from reduceParams_distinct [OF all] have "distinct (map fst bs)" by simp
  from compileBinds_plain [OF assms(4) acc2, of rt q] assms(5)
  have "compileBinds rt q [d2] = Inr (q, [(name d2, plainBind rt d2)])"
    by (simp add: assign_def)
  with single_entry [OF \<open>distinct (map fst bs)\<close> look] look c
  have main: "\<exists>sql bs b.
            compileBinds rt q params = Inr (sql, bs)
            \<and> compileBinds rt q [d2] = Inr (q, [(name d2, b)])
            \<and> map_of bs (name d2) = Some b
            \<and> filter (\<lambda>kb. fst kb = name d2) bs = [(name d2, b)]"
    by blast
  have proto: "map_of bs' ''__proto__'' = None
               \<and> filter (\<lambda>kb. fst kb = ''__proto__'') bs' = []"
    if "compileBinds rt q' params' = Inr (sql', bs')" for q' params' sql' bs'
  proof -
    from compileBinds_proto [OF that] have none: "map_of bs' ''__proto__'' = None" .
    then have "''__proto__'' \<notin> fst ` set bs'" by (simp add: map_of_eq_None_iff)
    then have "filter (\<lambda>kb. fst kb = ''__proto__'') bs' = []"
      by (force simp: filter_empty_conv image_iff)
    with none show ?thesis by simp
  qed
  from main proto show ?thesis by blast
qed

theorem later_descriptor_overwrites_witness:
  "compileBinds sampleRuntime ''SELECT :n FROM t WHERE id IN :n''
     [sampleText\<lparr>rawValue := Some ''first'', dataType := TString\<rparr>,
      sampleText\<lparr>rawValue := Some ''5''\<rparr>, sampleIds\<lparr>name := ''n''\<rparr>]
   = Inr (''SELECT (:n3b241101_e2bb_4255_8caf_4136c566a962,:n9f1c2d3e_4a5b_4c6d_8e7f_0a1b2c3d4e5f,:n0e3d2c1b_7a69_4857_9463_726150fedcba) FROM t WHERE id IN (:n3b241101_e2bb_4255_8caf_4136c566a962,:n9f1c2d3e_4a5b_4c6d_8e7f_0a1b2c3d4e5f,:n0e3d2c1b_7a69_4857_9463_726150fedcba)'',
          [(''n'', \<lparr>dir = BIND_IN, dbType = DB_NUMBER, val = Some (JNumber (Finite 5)),
                    outMaxSize = None\<rparr>),
           (''n3b241101_e2bb_4255_8caf_4136c566a962'',
            \<lparr>dir = BIND_IN, dbType = DB_NUMBER, val = Some (JNumber (Finite 1)),
             outMaxSize = None\<rparr>),
           (''n9f1c2d3e_4a5b_4c6d_8e7f_0a1b2c3d4e5f'',
            \<lparr>dir = BIND_IN, dbType = DB_NUMBER, val = Some (JNumber (Finite 2)),
             outMaxSize = None\<rparr>),
           (''n0e3d2c1b_7a69_4857_9463_726150fedcba'',
            \<lparr>dir = BIND_IN, dbType = DB_NUMBER, val = Some (JNumber (Finite 3)),
             outMaxSize = None\<rparr>)])
   \<and> compileBinds sampleRuntime ''SELECT :n FROM t WHERE id IN :n''
       [sampleText\<lparr>rawValue := Some ''5''\<rparr>]
     = Inr (''SELECT :n FROM t WHERE id IN :n'',
            [(''n'', \<lparr>dir = BIND_IN, dbType = DB_NUMBER, val = Some (JNumber (Finite 5)),
                      outMaxSize = None\<rparr>)])"
proof -
  let ?d1 = "sampleText\<lparr>rawValue := Some ''first'', dataType := TString\<rparr>"
  let ?d2 = "sampleText\<lparr>rawValue := Some ''5''\<rparr>"
  let ?d3 = "sampleIds\<lparr>name := ''n''\<rparr>"
  let ?q = "''SELECT :n FROM t WHERE id IN :n''"
  have h1: "[?d1, ?d2, ?d3] = [] @ ?d1 # [] @ ?d2 # [?d3]" by simp
  have h2: "name ?d1 = name ?d2" by simp
  have h3: "\<not> parseInStatement ?d1" and h4: "\<not> parseInStatement ?d2"
    by (simp_all add: sampleText_def)
  have h5: "name ?d2 \<noteq> ''__proto__''" by (simp add: sampleText_def)
  have "list_all (\<lambda>d. \<not> rejected d) [?d1, ?d2, ?d3]" by code_simp
  then have h6: "\<forall>d\<in>set [?d1, ?d2, ?d3]. \<exists>res. compileBinds sampleRuntime ?q [d] = Inr res"
    by (simp add: compileBinds_single del: split_paired_Ex)
  have h7: "name ?d2
              \<notin> set (assignedFrom sampleRuntime [?d3]
                       (sum_list (map draws ([] @ ?d1 # [] @ [?d2]))))"
    by code_simp
  have whole: "compileBinds sampleRuntime ?q [?d1, ?d2, ?d3]
   = Inr (''SELECT (:n3b241101_e2bb_4255_8caf_4136c566a962,:n9f1c2d3e_4a5b_4c6d_8e7f_0a1b2c3d4e5f,:n0e3d2c1b_7a69_4857_9463_726150fedcba) FROM t WHERE id IN (:n3b241101_e2bb_4255_8caf_4136c566a962,:n9f1c2d3e_4a5b_4c6d_8e7f_0a1b2c3d4e5f,:n0e3d2c1b_7a69_4857_9463_726150fedcba)'',
          [(''n'', \<lparr>dir = BIND_IN, dbType = DB_NUMBER, val = Some (JNumber (Finite 5)),
                    outMaxSize = None\<rparr>),
           (''n3b241101_e2bb_4255_8caf_4136c566a962'',
            \<lparr>dir = BIND_IN, dbType = DB_NUMBER, val = Some (JNumber (Finite 1)),
             outMaxSize = None\<rparr>),
           (''n9f1c2d3e_4a5b_4c6d_8e7f_0a1b2c3d4e5f'',
            \<lparr>dir = BIND_IN, dbType = DB_NUMBER, val = Some (JNumber (Finite 2)),
             outMaxSize = None\<rparr>),
           (''n0e3d2c1b_7a69_4857_9463_726150fedcba'',
            \<lparr>dir = BIND_IN, dbType = DB_NUMBER, val = Some (JNumber (Finite 3)),
             outMaxSize = None\<rparr>)])"
    by code_simp
  from later_descriptor_overwrites [OF h1 h2 h3 h4 h5 h6 h7] obtain sql bs b where
    c: "compileBinds sampleRuntime ?q [?d1, ?d2, ?d3] = Inr (sql, bs)"
    and one: "compileBinds sampleRuntime ?q [?d2] = Inr (?q, [(name ?d2, b)])"
    and look: "map_of bs (name ?d2) = Some b"
    by blast
  from c whole look have "b = \<lparr>dir = BIND_IN, dbType = DB_NUMBER,
                                val = Some (JNumber (Finite 5)), outMaxSize = None\<rparr>"
    by (simp add: sampleText_def)
  with one whole show ?thesis by (simp add: sampleText_def)
qed

end
